theory Spec2Isabelle
  imports Complex_Main "HOL-Library.Sublist" "HOL-Library.AList"
begin

chapter \<open>The Council web application's script layer\<close>

text \<open>
  A shallow embedding of \<^verbatim>\<open>service-worker.js\<close> and of the Leaflet wrappers
  (\<^verbatim>\<open>js/leafletWrapper.js\<close>, \<^verbatim>\<open>leafletMap.js\<close>, the GIS wrapper and the
  spatial-dashboard wrapper). Module-level variables become the fields of a state record
  that every function takes and returns; a thrown exception is the \<open>Inl\<close> of a sum; the
  browser platform (network, Cache Storage, Leaflet) is a parameter of the functions.
\<close>

section \<open>Service worker: data\<close>

text \<open>
  A URL as the platform's \<^verbatim>\<open>URL\<close> object shows it. \<^verbatim>\<open>request.url\<close> is the
  serialisation \<open>href\<close>; \<^verbatim>\<open>new URL(request.url)\<close> gives the parts back.
\<close>

record url =
  origin :: string
  pathname :: string
  search :: string
  fragment :: string

definition href :: "url \<Rightarrow> string" where
  "href u = origin u @ pathname u @ search u @ fragment u"

text \<open>
  Header names are in lower case and method names in upper case, as the platform
  normalises them. Of a response's headers only \<^verbatim>\<open>Vary\<close> matters to the worker's
  caches: \<open>vary\<close> is the list of field names it holds.
\<close>

type_synonym headers = "(string \<times> string) list"

record request =
  rq_url :: url
  rq_method :: string
  rq_mode :: string
  rq_headers :: headers

record response =
  status :: nat
  statusText :: string
  body :: string
  vary :: "string list"

text \<open>The constants at the head of the worker.\<close>

definition CACHE_NAME :: string where
  "CACHE_NAME = ''council-app-v1.0.0''"

definition RUNTIME_CACHE :: string where
  "RUNTIME_CACHE = ''council-app-runtime''"

definition OFFLINE_URL :: string where
  "OFFLINE_URL = ''/offline.html''"

datatype strategy =
  CACHE_FIRST | NETWORK_FIRST | STALE_WHILE_REVALIDATE | NETWORK_ONLY | CACHE_ONLY

section \<open>Service worker: choosing a strategy\<close>

definition static_extensions :: "string list" where
  "static_extensions =
     [''css'', ''js'', ''png'', ''jpg'', ''jpeg'', ''gif'', ''svg'', ''woff'', ''woff2'',
      ''ttf'', ''eot'']"

text \<open>
  \<^verbatim>\<open>pathname.match(/\.(css|js|...|eot)$/)\<close>: the search succeeds when some position
  holds a dot and what follows it, up to the end of the input, is one of the alternatives.
\<close>

definition matches_static_asset :: "string \<Rightarrow> bool" where
  "matches_static_asset p =
     list_ex (\<lambda>i. p ! i = CHR ''.'' \<and> drop (Suc i) p \<in> set static_extensions) [0..<length p]"

definition getCachingStrategy :: "request \<Rightarrow> strategy" where
  "getCachingStrategy rq =
     (let p = pathname (rq_url rq) in
      if matches_static_asset p then CACHE_FIRST
      else if prefix ''/_framework/'' p then CACHE_FIRST
      else if prefix ''/_content/'' p then CACHE_FIRST
      else if prefix ''/api/'' p then NETWORK_FIRST
      else if suffix ''/'' p \<or> suffix ''.html'' p then NETWORK_FIRST
      else NETWORK_FIRST)"

section \<open>Service worker: Cache Storage and the network\<close>

text \<open>
  Cache Storage is a list of named caches in creation order, a cache a list of entries in
  insertion order. A cache never holds a request whose method is not GET (\<^verbatim>\<open>put\<close>,
  \<^verbatim>\<open>add\<close> and \<^verbatim>\<open>addAll\<close> reject it), so the key of an entry is the request without
  its method, and \<^verbatim>\<open>cache.keys()\<close> gives back requests whose method is GET.
\<close>

record stored_request =
  sr_url :: url
  sr_mode :: string
  sr_headers :: headers

definition stored_of :: "request \<Rightarrow> stored_request" where
  "stored_of rq = \<lparr>sr_url = rq_url rq, sr_mode = rq_mode rq, sr_headers = rq_headers rq\<rparr>"


type_synonym cache = "(stored_request \<times> response) list"
type_synonym cache_storage = "(string \<times> cache) list"

text \<open>
  The platform's test whether a request matches an entry (no options given, as everywhere
  in the worker): the request's method is GET, the two URLs are equal apart from their
  fragments, and for every field that the entry's response names in \<^verbatim>\<open>Vary\<close> the two
  requests carry the same value; a \<^verbatim>\<open>*\<close> there matches nothing.
\<close>

definition same_resource :: "url \<Rightarrow> url \<Rightarrow> bool" where
  "same_resource a b = (origin a = origin b \<and> pathname a = pathname b \<and> search a = search b)"

definition request_matches :: "request \<Rightarrow> stored_request \<times> response \<Rightarrow> bool" where
  "request_matches rq e =
     (rq_method rq = ''GET'' \<and> same_resource (rq_url rq) (sr_url (fst e))
      \<and> list_all (\<lambda>f. f \<noteq> ''*'' \<and> map_of (rq_headers rq) f = map_of (sr_headers (fst e)) f)
           (vary (snd e)))"

definition cache_match :: "cache \<Rightarrow> request \<Rightarrow> response option" where
  "cache_match c rq = map_option snd (find (request_matches rq) c)"

fun caches_match :: "cache_storage \<Rightarrow> request \<Rightarrow> response option" where
  "caches_match [] rq = None"
| "caches_match ((n, c) # cs) rq =
     (case cache_match c rq of Some r \<Rightarrow> Some r | None \<Rightarrow> caches_match cs rq)"

definition caches_keys :: "cache_storage \<Rightarrow> string list" where
  "caches_keys cs = map fst cs"

definition caches_delete :: "string \<Rightarrow> cache_storage \<Rightarrow> cache_storage" where
  "caches_delete name cs = filter (\<lambda>e. fst e \<noteq> name) cs"

definition caches_open :: "string \<Rightarrow> cache_storage \<Rightarrow> cache_storage" where
  "caches_open name cs = (if name \<in> set (caches_keys cs) then cs else cs @ [(name, [])])"

definition the_cache :: "string \<Rightarrow> cache_storage \<Rightarrow> cache" where
  "the_cache name cs = (case map_of cs name of Some c \<Rightarrow> c | None \<Rightarrow> [])"

text \<open>
  \<^verbatim>\<open>cache.put(request, response)\<close> rejects with a \<^verbatim>\<open>TypeError\<close>, and stores nothing,
  unless the request's method is GET, its URL is an HTTP(S) one, the response's status is
  not 206 and its \<^verbatim>\<open>Vary\<close> holds no \<^verbatim>\<open>*\<close>. (The worker always puts a fresh clone, whose
  body is unused.) A put that is accepted removes the entries the request matches and
  appends the new one. Storage itself does not fail here: no quota or security error.
\<close>

definition put_accepts :: "request \<Rightarrow> response \<Rightarrow> bool" where
  "put_accepts rq rs =
     (rq_method rq = ''GET''
      \<and> (prefix ''http://'' (origin (rq_url rq)) \<or> prefix ''https://'' (origin (rq_url rq)))
      \<and> status rs \<noteq> 206 \<and> ''*'' \<notin> set (vary rs))"

definition cache_put :: "string \<Rightarrow> request \<Rightarrow> response \<Rightarrow> cache_storage \<Rightarrow> cache_storage" where
  "cache_put name rq rs cs =
     map (\<lambda>(n, c). if n = name then (n, filter (\<lambda>e. \<not> request_matches rq e) c @ [(stored_of rq, rs)])
                    else (n, c)) cs"

text \<open>
  \<^verbatim>\<open>cache.delete(request)\<close> removes the entries the request matches: none when its
  method is not GET.
\<close>

definition cache_delete :: "string \<Rightarrow> request \<Rightarrow> cache_storage \<Rightarrow> cache_storage" where
  "cache_delete name rq cs =
     map (\<lambda>(n, c). if n = name then (n, filter (\<lambda>e. \<not> request_matches rq e) c) else (n, c)) cs"

text \<open>
  The world outside the worker: what the network answers to a request (\<open>None\<close>: the
  fetch rejects), and what other event handlers do to Cache Storage while a fetch is
  awaited. The state of the worker is Cache Storage and the requests sent so far.
\<close>

record world =
  respond :: "request \<Rightarrow> response option"
  meanwhile :: "cache_storage \<Rightarrow> cache_storage"
  location_origin :: string

record sw_state =
  caches :: cache_storage
  fetched :: "request list"

definition fetch :: "world \<Rightarrow> request \<Rightarrow> sw_state \<Rightarrow> response option \<times> sw_state" where
  "fetch w rq s =
     (respond w rq, s\<lparr>caches := meanwhile w (caches s), fetched := fetched s @ [rq]\<rparr>)"

section \<open>Service worker: the activate handler\<close>

text \<open>
  \<^verbatim>\<open>caches.keys()\<close>, the filter on the two current names, and one
  \<^verbatim>\<open>caches.delete\<close> for each name the filter keeps.
\<close>

definition activate :: "cache_storage \<Rightarrow> cache_storage" where
  "activate cs =
     fold caches_delete
       (filter (\<lambda>cacheName. cacheName \<noteq> CACHE_NAME \<and> cacheName \<noteq> RUNTIME_CACHE) (caches_keys cs))
       cs"

text \<open>
  The message handler's answer to \<^verbatim>\<open>CLEAR_CACHE\<close>: \<^verbatim>\<open>caches.keys()\<close> and one
  \<^verbatim>\<open>caches.delete\<close> for every name.
\<close>

definition on_message_CLEAR_CACHE :: "cache_storage \<Rightarrow> cache_storage" where
  "on_message_CLEAR_CACHE cs = fold caches_delete (caches_keys cs) cs"

section \<open>Service worker: the strategy executors\<close>

text \<open>\<^verbatim>\<open>new Response('Offline', { status: 503, statusText: 'Service Unavailable' })\<close>\<close>

definition unavailable :: response where
  "unavailable =
     \<lparr>status = 503, statusText = ''Service Unavailable'', body = ''Offline'', vary = []\<rparr>"

text \<open>
  The block shared by the three executors: on status 200 open the runtime cache (which
  creates it when it is not there) and put a clone of the response under the request. The
  state is the one after the put has settled: with the copy when the put is accepted,
  without it when the put rejects.
\<close>

definition store_copy :: "request \<Rightarrow> response \<Rightarrow> sw_state \<Rightarrow> sw_state" where
  "store_copy rq rs s =
     (if status rs = 200
      then s\<lparr>caches :=
             (let opened = caches_open RUNTIME_CACHE (caches s)
              in if put_accepts rq rs then cache_put RUNTIME_CACHE rq rs opened else opened)\<rparr>
      else s)"

text \<open>
  In \<open>cacheFirst\<close> and \<open>networkFirst\<close> the put is not awaited: a put that rejects is
  an unhandled rejection and the function still returns the network's response.
\<close>

definition cacheFirst :: "world \<Rightarrow> request \<Rightarrow> sw_state \<Rightarrow> response \<times> sw_state" where
  "cacheFirst w rq s =
     (case caches_match (caches s) rq of
        Some cachedResponse \<Rightarrow> (cachedResponse, s)
      | None \<Rightarrow>
          (case fetch w rq s of
             (Some networkResponse, s1) \<Rightarrow> (networkResponse, store_copy rq networkResponse s1)
           | (None, s1) \<Rightarrow> (unavailable, s1)))"

text \<open>\<^verbatim>\<open>caches.match(OFFLINE_URL)\<close>: the string is resolved against the worker's origin.\<close>

definition offline_request :: "world \<Rightarrow> request" where
  "offline_request w =
     \<lparr>rq_url = \<lparr>origin = location_origin w, pathname = OFFLINE_URL, search = [], fragment = []\<rparr>,
      rq_method = ''GET'', rq_mode = ''cors'', rq_headers = []\<rparr>"

definition networkFirst :: "world \<Rightarrow> request \<Rightarrow> sw_state \<Rightarrow> response \<times> sw_state" where
  "networkFirst w rq s =
     (case fetch w rq s of
        (Some networkResponse, s1) \<Rightarrow> (networkResponse, store_copy rq networkResponse s1)
      | (None, s1) \<Rightarrow>
          (case caches_match (caches s1) rq of
             Some cachedResponse \<Rightarrow> (cachedResponse, s1)
           | None \<Rightarrow>
               (if rq_mode rq = ''navigate''
                then (case caches_match (caches s1) (offline_request w) of
                        Some offlineResponse \<Rightarrow> (offlineResponse, s1)
                      | None \<Rightarrow> (unavailable, s1))
                else (unavailable, s1))))"

text \<open>
  Here the put is awaited inside the \<^verbatim>\<open>then\<close> callback, and the \<^verbatim>\<open>catch\<close> that
  follows covers the callback too: when the fetch rejects, and also when the put of a
  status-200 response rejects, the promise resolves to \<^verbatim>\<open>cachedResponse\<close>. The result
  is \<open>None\<close> where the promise resolves to \<^verbatim>\<open>undefined\<close>. The state returned is the one
  after the fetch promise has settled, also where the caller has its answer before that.
\<close>

definition staleWhileRevalidate :: "world \<Rightarrow> request \<Rightarrow> sw_state \<Rightarrow> response option \<times> sw_state" where
  "staleWhileRevalidate w rq s =
     (let cachedResponse = caches_match (caches s) rq;
          fetchPromise =
            (case fetch w rq s of
               (Some networkResponse, s1) \<Rightarrow>
                 (if status networkResponse = 200 \<and> \<not> put_accepts rq networkResponse
                  then cachedResponse else Some networkResponse,
                  store_copy rq networkResponse s1)
             | (None, s1) \<Rightarrow> (cachedResponse, s1))
      in (case cachedResponse of
            Some c \<Rightarrow> (Some c, snd fetchPromise)
          | None \<Rightarrow> fetchPromise))"

section \<open>Service worker: background sync\<close>

text \<open>\<^verbatim>\<open>str.includes(sub)\<close>\<close>

fun str_includes :: "string \<Rightarrow> string \<Rightarrow> bool" where
  "str_includes [] sub = (sub = [])"
| "str_includes (c # cs) sub = (prefix sub (c # cs) \<or> str_includes cs sub)"

text \<open>The body of the loop over \<^verbatim>\<open>cache.keys()\<close>, with its inner try and catch.\<close>

definition sync_request :: "world \<Rightarrow> request \<Rightarrow> sw_state \<Rightarrow> sw_state" where
  "sync_request w rq s =
     (if str_includes (href (rq_url rq)) ''/api/'' \<and> rq_method rq \<noteq> ''GET''
      then (case fetch w rq s of
              (Some _, s1) \<Rightarrow> s1\<lparr>caches := cache_delete RUNTIME_CACHE rq (caches s1)\<rparr>
            | (None, s1) \<Rightarrow> s1)
      else s)"



section \<open>Service worker: the fetch handler\<close>

text \<open>
  \<open>None\<close> where the handler returns without \<^verbatim>\<open>respondWith\<close> (another origin, or a
  URL that does not start with \<^verbatim>\<open>http\<close>); otherwise the answer of the strategy chosen,
  \<open>None\<close> inside it where the promise has no response.
\<close>

definition on_fetch :: "world \<Rightarrow> request \<Rightarrow> sw_state \<Rightarrow> (response option \<times> sw_state) option" where
  "on_fetch w rq s =
     (if origin (rq_url rq) \<noteq> location_origin w then None
      else if \<not> prefix ''http'' (href (rq_url rq)) then None
      else Some
        (case getCachingStrategy rq of
           CACHE_FIRST \<Rightarrow> (case cacheFirst w rq s of (r, s') \<Rightarrow> (Some r, s'))
         | NETWORK_FIRST \<Rightarrow> (case networkFirst w rq s of (r, s') \<Rightarrow> (Some r, s'))
         | STALE_WHILE_REVALIDATE \<Rightarrow> staleWhileRevalidate w rq s
         | NETWORK_ONLY \<Rightarrow> fetch w rq s
         | CACHE_ONLY \<Rightarrow> (caches_match (caches s) rq, s)))"

section \<open>Leaflet wrappers: the page and the library\<close>

text \<open>
  What a wrapper does to the page is a sequence of calls into Leaflet. The model records
  each call and whether it returned; whether it throws is for the library to decide
  (\<open>faults\<close>: does the \<open>n\<close>-th call made on the page, being this call, throw). Only
  two calls have an effect the model follows: \<^verbatim>\<open>L.map(elementId)\<close> creates a map instance
  (its handle is the position of the call in the trace) and \<^verbatim>\<open>map.remove()\<close> releases
  one. Every other call is recorded by name. The console is the list of messages written
  to it.
\<close>

type_synonym handle = nat

datatype call = L_map string | Map_remove handle | Call string

datatype exn = Thrown call | TypeError string

datatype jsval = JUndefined | JNull | JBool bool | JNum nat | JStr string | JRef handle

type_synonym faults = "nat \<Rightarrow> call \<Rightarrow> bool"

record page =
  trace :: "(call \<times> bool) list"
  console :: "string list"

definition returns :: "jsval \<Rightarrow> 's \<Rightarrow> (exn + jsval) \<times> 's" where
  "returns v s = (Inr v, s)"

definition throws :: "exn \<Rightarrow> 's \<Rightarrow> (exn + jsval) \<times> 's" where
  "throws e s = (Inl e, s)"

definition modify :: "('s \<Rightarrow> 's) \<Rightarrow> 's \<Rightarrow> (exn + jsval) \<times> 's" where
  "modify f s = (Inr JUndefined, f s)"

text \<open>One statement after another: an exception ends the sequence.\<close>

definition seq ::
  "('s \<Rightarrow> (exn + jsval) \<times> 's) \<Rightarrow> ('s \<Rightarrow> (exn + jsval) \<times> 's) \<Rightarrow> 's \<Rightarrow> (exn + jsval) \<times> 's" where
  "seq m k s = (case m s of (Inl e, s') \<Rightarrow> (Inl e, s') | (Inr _, s') \<Rightarrow> k s')"

fun block :: "('s \<Rightarrow> (exn + jsval) \<times> 's) list \<Rightarrow> 's \<Rightarrow> (exn + jsval) \<times> 's" where
  "block [] = returns JUndefined"
| "block [m] = m"
| "block (m # ms) = seq m (block ms)"

definition try_catch ::
  "('s \<Rightarrow> (exn + jsval) \<times> 's) \<Rightarrow> (exn \<Rightarrow> 's \<Rightarrow> (exn + jsval) \<times> 's) \<Rightarrow> 's \<Rightarrow> (exn + jsval) \<times> 's" where
  "try_catch m h s = (case m s of (Inl e, s') \<Rightarrow> h e s' | (Inr v, s') \<Rightarrow> (Inr v, s'))"

definition js_when :: "bool \<Rightarrow> ('s \<Rightarrow> (exn + jsval) \<times> 's) \<Rightarrow> 's \<Rightarrow> (exn + jsval) \<times> 's" where
  "js_when b m = (if b then m else returns JUndefined)"

definition lib_call :: "faults \<Rightarrow> call \<Rightarrow> 'a page_scheme \<Rightarrow> (exn + jsval) \<times> 'a page_scheme" where
  "lib_call lib c s =
     (if lib (length (trace s)) c
      then (Inl (Thrown c), s\<lparr>trace := trace s @ [(c, False)]\<rparr>)
      else (Inr (JRef (length (trace s))), s\<lparr>trace := trace s @ [(c, True)]\<rparr>))"

definition console_write :: "string \<Rightarrow> 'a page_scheme \<Rightarrow> (exn + jsval) \<times> 'a page_scheme" where
  "console_write msg s = (Inr JUndefined, s\<lparr>console := console s @ [msg]\<rparr>)"

text \<open>The map instances created and not released, oldest first.\<close>

fun live_from :: "nat \<Rightarrow> (call \<times> bool) list \<Rightarrow> handle list \<Rightarrow> handle list" where
  "live_from i [] live = live"
| "live_from i ((L_map el, True) # tr) live = live_from (Suc i) tr (live @ [i])"
| "live_from i ((Map_remove h, True) # tr) live = live_from (Suc i) tr (removeAll h live)"
| "live_from i (_ # tr) live = live_from (Suc i) tr live"

definition live_maps :: "'a page_scheme \<Rightarrow> handle list" where
  "live_maps s = live_from 0 (trace s) []"

text \<open>A JavaScript string argument that may be \<^verbatim>\<open>null\<close> or absent, tested by \<^verbatim>\<open>if (x)\<close>.\<close>

definition truthy :: "string option \<Rightarrow> bool" where
  "truthy x = (case x of None \<Rightarrow> False | Some t \<Rightarrow> t \<noteq> [])"

text \<open>
  Overlay objects, by what they were made from (style options are left out), and the
  GeoJSON a layer exports.
\<close>

type_synonym latlng = "real \<times> real"

datatype geometry = Point latlng | LineString "latlng list" | Ring "latlng list"

datatype geojson = Feature geometry | FeatureCollection "geometry list"

datatype overlay =
  Marker latlng | Circle latlng real | Polygon "latlng list" | Polyline "latlng list"
  | GeoJSON geojson

definition features :: "geojson \<Rightarrow> geometry list" where
  "features g = (case g of FeatureCollection fs \<Rightarrow> fs | Feature f \<Rightarrow> [f])"

fun toGeoJSON :: "overlay \<Rightarrow> geojson" where
  "toGeoJSON (Marker p) = Feature (Point p)"
| "toGeoJSON (Circle p r) = Feature (Point p)"
| "toGeoJSON (Polygon ps) = Feature (Ring ps)"
| "toGeoJSON (Polyline ps) = Feature (LineString ps)"
| "toGeoJSON (GeoJSON g) = FeatureCollection (features g)"

section \<open>\<^verbatim>\<open>js/leafletWrapper.js\<close>\<close>

record lw_state = page +
  lw_map :: "handle option"
  lw_drawnItems :: "overlay list option"
  lw_drawControl :: "handle option"
  lw_miniMapControl :: "handle option"
  lw_layerGroup :: "overlay list option"

definition lw_init :: lw_state where
  "lw_init = \<lparr>trace = [], console = [], lw_map = None, lw_drawnItems = None,
     lw_drawControl = None, lw_miniMapControl = None, lw_layerGroup = None\<rparr>"

definition lw_createMap :: "faults \<Rightarrow> string \<Rightarrow> real \<Rightarrow> real \<Rightarrow> real \<Rightarrow> lw_state \<Rightarrow> (exn + jsval) \<times> lw_state" where
  "lw_createMap lib elementId lat lng zoom =
     block
      [(\<lambda>s. case lw_map s of Some h \<Rightarrow> lib_call lib (Map_remove h) s | None \<Rightarrow> returns JUndefined s),
       (\<lambda>s. block
          [lib_call lib (L_map elementId),
           lib_call lib (Call ''map.setView''),
           modify (\<lambda>s'. s'\<lparr>lw_map := Some (length (trace s))\<rparr>)] s),
       lib_call lib (Call ''L.tileLayer''),
       lib_call lib (Call ''tileLayer.addTo''),
       lib_call lib (Call ''L.layerGroup''),
       lib_call lib (Call ''layerGroup.addTo''),
       modify (\<lambda>s. s\<lparr>lw_layerGroup := Some []\<rparr>)]"

text \<open>
  \<^verbatim>\<open>overlay.addTo(layerGroup)\<close>: a \<^verbatim>\<open>TypeError\<close> when the group is still \<^verbatim>\<open>null\<close>.
\<close>

definition lw_addTo_layerGroup :: "faults \<Rightarrow> overlay \<Rightarrow> lw_state \<Rightarrow> (exn + jsval) \<times> lw_state" where
  "lw_addTo_layerGroup lib ov s =
     (case lw_layerGroup s of
        None \<Rightarrow> throws (TypeError ''addTo'') s
      | Some g \<Rightarrow>
          block [lib_call lib (Call ''addTo''), modify (\<lambda>s'. s'\<lparr>lw_layerGroup := Some (g @ [ov])\<rparr>)] s)"

definition lw_addMarker :: "faults \<Rightarrow> real \<Rightarrow> real \<Rightarrow> string option \<Rightarrow> lw_state \<Rightarrow> (exn + jsval) \<times> lw_state" where
  "lw_addMarker lib lat lng popupText s =
     (if lw_map s = None then block [console_write ''Map not initialized'', returns JUndefined] s
      else block
        [lib_call lib (Call ''L.marker''),
         js_when (truthy popupText) (lib_call lib (Call ''marker.bindPopup'')),
         lw_addTo_layerGroup lib (Marker (lat, lng))] s)"

definition lw_addCircle :: "faults \<Rightarrow> real \<Rightarrow> real \<Rightarrow> real \<Rightarrow> lw_state \<Rightarrow> (exn + jsval) \<times> lw_state" where
  "lw_addCircle lib lat lng radius s =
     (if lw_map s = None then block [console_write ''Map not initialized'', returns JUndefined] s
      else block
        [lib_call lib (Call ''L.circle''),
         lw_addTo_layerGroup lib (Circle (lat, lng) radius)] s)"

definition lw_addPolygon :: "faults \<Rightarrow> latlng list \<Rightarrow> lw_state \<Rightarrow> (exn + jsval) \<times> lw_state" where
  "lw_addPolygon lib latLngs s =
     (if lw_map s = None then block [console_write ''Map not initialized'', returns JUndefined] s
      else block
        [lib_call lib (Call ''L.polygon''),
         lw_addTo_layerGroup lib (Polygon latLngs)] s)"

definition lw_addPolyline :: "faults \<Rightarrow> latlng list \<Rightarrow> lw_state \<Rightarrow> (exn + jsval) \<times> lw_state" where
  "lw_addPolyline lib latLngs s =
     (if lw_map s = None then block [console_write ''Map not initialized'', returns JUndefined] s
      else block
        [lib_call lib (Call ''L.polyline''),
         lw_addTo_layerGroup lib (Polyline latLngs)] s)"

definition lw_addGeoJson :: "faults \<Rightarrow> geojson \<Rightarrow> lw_state \<Rightarrow> (exn + jsval) \<times> lw_state" where
  "lw_addGeoJson lib geoJsonData s =
     (if lw_map s = None then block [console_write ''Map not initialized'', returns JUndefined] s
      else block
        [lib_call lib (Call ''L.geoJSON''),
         lw_addTo_layerGroup lib (GeoJSON geoJsonData)] s)"

section \<open>\<^verbatim>\<open>leafletMap.js\<close> (customary land management)\<close>

record lm_state = page +
  lm_map :: "handle option"
  lm_markers :: "overlay list"
  lm_parcels :: "overlay list"
  lm_chiefdomBoundaries :: "overlay list"

definition lm_init :: lm_state where
  "lm_init = \<lparr>trace = [], console = [], lm_map = None, lm_markers = [], lm_parcels = [],
     lm_chiefdomBoundaries = []\<rparr>"

definition lm_initializeMap :: "faults \<Rightarrow> string \<Rightarrow> real \<Rightarrow> real \<Rightarrow> real \<Rightarrow> lm_state \<Rightarrow> (exn + jsval) \<times> lm_state" where
  "lm_initializeMap lib elementId latitude longitude zoom =
     try_catch
       (block
         [(\<lambda>s. block
             [lib_call lib (L_map elementId),
              lib_call lib (Call ''map.setView''),
              modify (\<lambda>s'. s'\<lparr>lm_map := Some (length (trace s))\<rparr>)] s),
          lib_call lib (Call ''L.tileLayer''),
          lib_call lib (Call ''tileLayer.addTo''),
          lib_call lib (Call ''L.control.scale''),
          lib_call lib (Call ''scale.addTo''),
          returns (JBool True)])
       (\<lambda>error. block [console_write ''Error initializing map:'', returns (JBool False)])"

definition lm_addMarker :: "faults \<Rightarrow> real \<Rightarrow> real \<Rightarrow> string \<Rightarrow> string option \<Rightarrow> string \<Rightarrow> lm_state \<Rightarrow> (exn + jsval) \<times> lm_state" where
  "lm_addMarker lib lat lng title popupContent color s =
     (if lm_map s = None then returns JNull s
      else try_catch
        (block
          [lib_call lib (Call ''L.divIcon''),
           lib_call lib (Call ''L.marker''),
           lib_call lib (Call ''marker.addTo''),
           js_when (truthy popupContent) (lib_call lib (Call ''marker.bindPopup'')),
           modify (\<lambda>s'. s'\<lparr>lm_markers := lm_markers s' @ [Marker (lat, lng)]\<rparr>),
           (\<lambda>s'. returns (JNum (length (lm_markers s') - 1)) s')])
        (\<lambda>error. block [console_write ''Error adding marker:'', returns JNull]) s)"

text \<open>
  The \<^verbatim>\<open>properties\<close> argument of \<^verbatim>\<open>addParcel\<close>: \<open>None\<close> is \<^verbatim>\<open>null\<close>, whose fields
  cannot be read.
\<close>

record parcel_properties =
  pp_popupContent :: "string option"
  pp_id :: string

definition lm_addParcel :: "faults \<Rightarrow> latlng list \<Rightarrow> parcel_properties option \<Rightarrow> lm_state \<Rightarrow> (exn + jsval) \<times> lm_state" where
  "lm_addParcel lib coordinates properties s =
     (if lm_map s = None then returns JNull s
      else try_catch
        (case properties of
           None \<Rightarrow> throws (TypeError ''properties.borderColor'')
         | Some props \<Rightarrow>
             block
              [lib_call lib (Call ''L.polygon''),
               lib_call lib (Call ''polygon.addTo''),
               js_when (truthy (pp_popupContent props)) (lib_call lib (Call ''polygon.bindPopup'')),
               lib_call lib (Call ''polygon.on''),
               modify (\<lambda>s'. s'\<lparr>lm_parcels := lm_parcels s' @ [Polygon coordinates]\<rparr>),
               (\<lambda>s'. returns (JNum (length (lm_parcels s') - 1)) s')])
        (\<lambda>error. block [console_write ''Error adding parcel:'', returns JNull]) s)"

definition lm_addChiefdomBoundary :: "faults \<Rightarrow> latlng list \<Rightarrow> string \<Rightarrow> string \<Rightarrow> lm_state \<Rightarrow> (exn + jsval) \<times> lm_state" where
  "lm_addChiefdomBoundary lib coordinates chiefdomName color s =
     (if lm_map s = None then returns JNull s
      else try_catch
        (block
          [lib_call lib (Call ''L.polygon''),
           lib_call lib (Call ''boundary.addTo''),
           lib_call lib (Call ''boundary.bindPopup''),
           modify (\<lambda>s'. s'\<lparr>lm_chiefdomBoundaries := lm_chiefdomBoundaries s' @ [Polygon coordinates]\<rparr>),
           (\<lambda>s'. returns (JNum (length (lm_chiefdomBoundaries s') - 1)) s')])
        (\<lambda>error. block [console_write ''Error adding chiefdom boundary:'', returns JNull]) s)"

text \<open>
  \<^verbatim>\<open>xs.forEach(x => map.removeLayer(x))\<close>: one call for each element, and a
  \<^verbatim>\<open>TypeError\<close> at the first element when \<^verbatim>\<open>map\<close> is \<^verbatim>\<open>null\<close>.
\<close>

definition removeLayer_each :: "faults \<Rightarrow> handle option \<Rightarrow> 'b list \<Rightarrow> 'a page_scheme \<Rightarrow> (exn + jsval) \<times> 'a page_scheme" where
  "removeLayer_each lib m xs =
     (if xs = [] then returns JUndefined
      else if m = None then throws (TypeError ''map.removeLayer'')
      else block (map (\<lambda>_. lib_call lib (Call ''map.removeLayer'')) xs))"

definition lm_clearMarkers :: "faults \<Rightarrow> lm_state \<Rightarrow> (exn + jsval) \<times> lm_state" where
  "lm_clearMarkers lib =
     block [(\<lambda>s. removeLayer_each lib (lm_map s) (lm_markers s) s),
            modify (\<lambda>s. s\<lparr>lm_markers := []\<rparr>)]"

definition lm_clearParcels :: "faults \<Rightarrow> lm_state \<Rightarrow> (exn + jsval) \<times> lm_state" where
  "lm_clearParcels lib =
     block [(\<lambda>s. removeLayer_each lib (lm_map s) (lm_parcels s) s),
            modify (\<lambda>s. s\<lparr>lm_parcels := []\<rparr>)]"

definition lm_clearChiefdomBoundaries :: "faults \<Rightarrow> lm_state \<Rightarrow> (exn + jsval) \<times> lm_state" where
  "lm_clearChiefdomBoundaries lib =
     block [(\<lambda>s. removeLayer_each lib (lm_map s) (lm_chiefdomBoundaries s) s),
            modify (\<lambda>s. s\<lparr>lm_chiefdomBoundaries := []\<rparr>)]"

definition lm_clearAll :: "faults \<Rightarrow> lm_state \<Rightarrow> (exn + jsval) \<times> lm_state" where
  "lm_clearAll lib = block [lm_clearMarkers lib, lm_clearParcels lib, lm_clearChiefdomBoundaries lib]"

definition lm_disposeMap :: "faults \<Rightarrow> lm_state \<Rightarrow> (exn + jsval) \<times> lm_state" where
  "lm_disposeMap lib s =
     (case lm_map s of
        None \<Rightarrow> returns JUndefined s
      | Some h \<Rightarrow>
          block [lm_clearAll lib, lib_call lib (Map_remove h), modify (\<lambda>s'. s'\<lparr>lm_map := None\<rparr>)] s)"

section \<open>The GIS wrapper (\<^verbatim>\<open>src/unnamed/part_000\<close>)\<close>

text \<open>
  The registries \<^verbatim>\<open>layers\<close> and \<^verbatim>\<open>markers\<close> are objects used as dictionaries: an
  association list in insertion order, where writing an existing key replaces its value in
  place.
\<close>

record gis_state = page +
  gis_map :: "handle option"
  gis_layers :: "(string \<times> overlay) list"
  gis_markers :: "(string \<times> overlay) list"
  gis_currentBaseLayer :: "handle option"
  gis_satelliteLayer :: "handle option"
  gis_drawingLayer :: "handle option"
  gis_measurementLayer :: "handle option"
  gis_currentDrawingMode :: "string option"

definition gis_init :: gis_state where
  "gis_init = \<lparr>trace = [], console = [], gis_map = None, gis_layers = [], gis_markers = [],
     gis_currentBaseLayer = None, gis_satelliteLayer = None, gis_drawingLayer = None,
     gis_measurementLayer = None, gis_currentDrawingMode = None\<rparr>"

text \<open>\<^verbatim>\<open>Date.now()\<close> in a template literal: the decimal digits of the clock.\<close>

fun decimal :: "nat \<Rightarrow> string" where
  "decimal n =
     (if n < 10 then [''0123456789'' ! n]
      else decimal (n div 10) @ [''0123456789'' ! (n mod 10)])"

declare decimal.simps [simp del]

definition gis_createMap :: "faults \<Rightarrow> string \<Rightarrow> real \<Rightarrow> real \<Rightarrow> real \<Rightarrow> gis_state \<Rightarrow> (exn + jsval) \<times> gis_state" where
  "gis_createMap lib elementId lat lng zoom =
     block
      [(\<lambda>s. case gis_map s of Some h \<Rightarrow> lib_call lib (Map_remove h) s | None \<Rightarrow> returns JUndefined s),
       (\<lambda>s. block
          [lib_call lib (L_map elementId),
           lib_call lib (Call ''map.setView''),
           modify (\<lambda>s'. s'\<lparr>gis_map := Some (length (trace s))\<rparr>)] s),
       (\<lambda>s. block
          [lib_call lib (Call ''L.tileLayer''),
           lib_call lib (Call ''tileLayer.addTo''),
           modify (\<lambda>s'. s'\<lparr>gis_currentBaseLayer := Some (length (trace s))\<rparr>)] s),
       (\<lambda>s. returns (case gis_map s of Some h \<Rightarrow> JRef h | None \<Rightarrow> JNull) s)]"

definition gis_addMarker :: "faults \<Rightarrow> nat \<Rightarrow> real \<Rightarrow> real \<Rightarrow> string option \<Rightarrow> gis_state \<Rightarrow> (exn + jsval) \<times> gis_state" where
  "gis_addMarker lib now lat lng popupText s =
     (if gis_map s = None then returns JUndefined s
      else block
        [lib_call lib (Call ''L.marker''),
         lib_call lib (Call ''marker.addTo''),
         js_when (truthy popupText) (lib_call lib (Call ''marker.bindPopup'')),
         modify (\<lambda>s'. s'\<lparr>gis_markers :=
            AList.update (''marker_'' @ decimal now) (Marker (lat, lng)) (gis_markers s')\<rparr>),
         returns (JStr (''marker_'' @ decimal now))] s)"

definition gis_addCircle :: "faults \<Rightarrow> nat \<Rightarrow> real \<Rightarrow> real \<Rightarrow> real \<Rightarrow> gis_state \<Rightarrow> (exn + jsval) \<times> gis_state" where
  "gis_addCircle lib now lat lng radius s =
     (if gis_map s = None then returns JUndefined s
      else block
        [lib_call lib (Call ''L.circle''),
         lib_call lib (Call ''circle.addTo''),
         modify (\<lambda>s'. s'\<lparr>gis_layers :=
            AList.update (''circle_'' @ decimal now) (Circle (lat, lng) radius) (gis_layers s')\<rparr>),
         returns (JStr (''circle_'' @ decimal now))] s)"

definition gis_addPolygon :: "faults \<Rightarrow> nat \<Rightarrow> latlng list \<Rightarrow> gis_state \<Rightarrow> (exn + jsval) \<times> gis_state" where
  "gis_addPolygon lib now latLngs s =
     (if gis_map s = None then returns JUndefined s
      else block
        [lib_call lib (Call ''L.polygon''),
         lib_call lib (Call ''polygon.addTo''),
         modify (\<lambda>s'. s'\<lparr>gis_layers :=
            AList.update (''polygon_'' @ decimal now) (Polygon latLngs) (gis_layers s')\<rparr>),
         returns (JStr (''polygon_'' @ decimal now))] s)"

definition gis_addGeoJson :: "faults \<Rightarrow> nat \<Rightarrow> geojson \<Rightarrow> gis_state \<Rightarrow> (exn + jsval) \<times> gis_state" where
  "gis_addGeoJson lib now geoJson s =
     (if gis_map s = None then returns JUndefined s
      else block
        [lib_call lib (Call ''L.geoJSON''),
         lib_call lib (Call ''layer.addTo''),
         modify (\<lambda>s'. s'\<lparr>gis_layers :=
            AList.update (''geojson_'' @ decimal now) (GeoJSON geoJson) (gis_layers s')\<rparr>),
         returns (JStr (''geojson_'' @ decimal now))] s)"

text \<open>
  \<^verbatim>\<open>addLayer\<close> parses its data with \<^verbatim>\<open>JSON.parse\<close>, a parameter here: \<open>None\<close> is
  the \<^verbatim>\<open>SyntaxError\<close>.
\<close>

definition gis_addLayer :: "faults \<Rightarrow> (string \<Rightarrow> geojson option) \<Rightarrow> string \<Rightarrow> string \<Rightarrow> gis_state \<Rightarrow> (exn + jsval) \<times> gis_state" where
  "gis_addLayer lib JSON_parse layerId layerData s =
     (if gis_map s = None then returns JUndefined s
      else try_catch
        (case JSON_parse layerData of
           None \<Rightarrow> throws (TypeError ''JSON.parse'')
         | Some data \<Rightarrow>
             block
              [lib_call lib (Call ''L.geoJSON''),
               lib_call lib (Call ''layer.addTo''),
               modify (\<lambda>s'. s'\<lparr>gis_layers := AList.update layerId (GeoJSON data) (gis_layers s')\<rparr>)])
        (\<lambda>e. console_write ''Error adding layer:'') s)"

definition gis_removeLayer :: "faults \<Rightarrow> string \<Rightarrow> gis_state \<Rightarrow> (exn + jsval) \<times> gis_state" where
  "gis_removeLayer lib layerId s =
     (case map_of (gis_layers s) layerId of
        None \<Rightarrow> returns JUndefined s
      | Some layer \<Rightarrow>
          block
           [removeLayer_each lib (gis_map s) [layer],
            modify (\<lambda>s'. s'\<lparr>gis_layers := AList.delete layerId (gis_layers s')\<rparr>)] s)"

definition gis_clearMap :: "faults \<Rightarrow> gis_state \<Rightarrow> (exn + jsval) \<times> gis_state" where
  "gis_clearMap lib s =
     (if gis_map s = None then returns JUndefined s
      else block
        [(\<lambda>s'. removeLayer_each lib (gis_map s') (gis_layers s') s'),
         modify (\<lambda>s'. s'\<lparr>gis_layers := []\<rparr>),
         (\<lambda>s'. removeLayer_each lib (gis_map s') (gis_markers s') s'),
         modify (\<lambda>s'. s'\<lparr>gis_markers := []\<rparr>)] s)"

text \<open>
  \<^verbatim>\<open>JSON.stringify\<close> is kept as a constructor: the text returned is the serialisation
  of the value under it. The argument is \<open>None\<close> when the caller gives no identifier.
\<close>

datatype json_text = JSON_stringify geojson

definition gis_exportToGeoJson :: "string option \<Rightarrow> gis_state \<Rightarrow> json_text" where
  "gis_exportToGeoJson layerId s =
     (case (case layerId of None \<Rightarrow> None
            | Some i \<Rightarrow> if i = [] then None else map_of (gis_layers s) i) of
        Some layer \<Rightarrow> JSON_stringify (toGeoJSON layer)
      | None \<Rightarrow>
          JSON_stringify
            (FeatureCollection (concat (map (\<lambda>layer. features (toGeoJSON layer)) (map snd (gis_layers s))))))"

text \<open>The functions above that assign \<^verbatim>\<open>map\<close>, \<^verbatim>\<open>layers\<close> or \<^verbatim>\<open>markers\<close>.\<close>

datatype gis_call =
    CreateMap string real real real
  | AddMarker nat real real "string option"
  | AddCircle nat real real real
  | AddPolygon nat "latlng list"
  | AddGeoJson nat geojson
  | AddLayer string string
  | RemoveLayer string
  | ClearMap

fun gis_invoke :: "faults \<Rightarrow> (string \<Rightarrow> geojson option) \<Rightarrow> gis_call \<Rightarrow> gis_state \<Rightarrow> (exn + jsval) \<times> gis_state" where
  "gis_invoke lib prs (CreateMap elementId lat lng zoom) = gis_createMap lib elementId lat lng zoom"
| "gis_invoke lib prs (AddMarker now lat lng popupText) = gis_addMarker lib now lat lng popupText"
| "gis_invoke lib prs (AddCircle now lat lng radius) = gis_addCircle lib now lat lng radius"
| "gis_invoke lib prs (AddPolygon now latLngs) = gis_addPolygon lib now latLngs"
| "gis_invoke lib prs (AddGeoJson now geoJson) = gis_addGeoJson lib now geoJson"
| "gis_invoke lib prs (AddLayer layerId layerData) = gis_addLayer lib prs layerId layerData"
| "gis_invoke lib prs (RemoveLayer layerId) = gis_removeLayer lib layerId"
| "gis_invoke lib prs ClearMap = gis_clearMap lib"

text \<open>
  The states the module can be in: it starts in \<open>gis_init\<close>; a call of one of the
  functions above leads from one state to the next, returning or throwing; the other
  exported functions (base map, satellite layer, drawing, measurement, editing, opacity,
  visibility, view) write only the other variables and the page.
\<close>

inductive gis_reachable :: "gis_state \<Rightarrow> bool" where
  start: "gis_reachable gis_init"
| call: "gis_reachable s \<Longrightarrow> gis_reachable (snd (gis_invoke lib prs c s))"
| other: "gis_reachable s \<Longrightarrow> gis_map s' = gis_map s \<Longrightarrow> gis_layers s' = gis_layers s \<Longrightarrow>
    gis_markers s' = gis_markers s \<Longrightarrow> gis_reachable s'"

section \<open>The spatial dashboard wrapper (\<^verbatim>\<open>src/unnamed/part_001\<close>)\<close>

record sd_state = page +
  sd_spatialMap :: "handle option"
  sd_markers :: "overlay list"
  sd_polygons :: "overlay list"

definition sd_init :: sd_state where
  "sd_init = \<lparr>trace = [], console = [], sd_spatialMap = None, sd_markers = [], sd_polygons = []\<rparr>"

text \<open>
  Each exported function is one \<^verbatim>\<open>try\<close> block and one \<^verbatim>\<open>catch\<close> that logs and
  returns \<^verbatim>\<open>false\<close>. The blocks come first.
\<close>

definition sd_failed :: "string \<Rightarrow> exn \<Rightarrow> sd_state \<Rightarrow> (exn + jsval) \<times> sd_state" where
  "sd_failed msg error = block [console_write msg, returns (JBool False)]"

definition initializeLeafletMap_try :: "faults \<Rightarrow> string \<Rightarrow> real \<Rightarrow> real \<Rightarrow> real \<Rightarrow> sd_state \<Rightarrow> (exn + jsval) \<times> sd_state" where
  "initializeLeafletMap_try lib mapId centerLat centerLng zoom =
     block
      [(\<lambda>s. case sd_spatialMap s of
              Some h \<Rightarrow>
                block [lib_call lib (Map_remove h),
                       modify (\<lambda>s'. s'\<lparr>sd_markers := [], sd_polygons := []\<rparr>)] s
            | None \<Rightarrow> returns JUndefined s),
       (\<lambda>s. block
          [lib_call lib (L_map mapId),
           lib_call lib (Call ''map.setView''),
           modify (\<lambda>s'. s'\<lparr>sd_spatialMap := Some (length (trace s))\<rparr>)] s),
       lib_call lib (Call ''L.tileLayer''),
       lib_call lib (Call ''tileLayer.addTo''),
       console_write ''Leaflet map initialized successfully'',
       returns (JBool True)]"

definition addLeafletMarker_try :: "faults \<Rightarrow> real \<Rightarrow> real \<Rightarrow> string \<Rightarrow> string \<Rightarrow> sd_state \<Rightarrow> (exn + jsval) \<times> sd_state" where
  "addLeafletMarker_try lib lat lng title iconColor s =
     (if sd_spatialMap s = None
      then block [console_write ''Map not initialized'', returns (JBool False)] s
      else block
        [lib_call lib (Call ''L.icon''),
         lib_call lib (Call ''L.marker''),
         lib_call lib (Call ''marker.bindPopup''),
         lib_call lib (Call ''marker.addTo''),
         modify (\<lambda>s'. s'\<lparr>sd_markers := sd_markers s' @ [Marker (lat, lng)]\<rparr>),
         returns (JBool True)] s)"

text \<open>\<^verbatim>\<open>paths.map\<close> is a \<^verbatim>\<open>TypeError\<close> when \<^verbatim>\<open>paths\<close> is not an array (\<open>None\<close>).\<close>

definition addLeafletPolygon_try :: "faults \<Rightarrow> latlng list option \<Rightarrow> sd_state \<Rightarrow> (exn + jsval) \<times> sd_state" where
  "addLeafletPolygon_try lib paths s =
     (if sd_spatialMap s = None
      then block [console_write ''Map not initialized'', returns (JBool False)] s
      else (case paths of
              None \<Rightarrow> throws (TypeError ''paths.map'') s
            | Some latLngs \<Rightarrow>
                block
                 [lib_call lib (Call ''L.polygon''),
                  lib_call lib (Call ''polygon.addTo''),
                  modify (\<lambda>s'. s'\<lparr>sd_polygons := sd_polygons s' @ [Polygon latLngs]\<rparr>),
                  returns (JBool True)] s))"

definition addLeafletCircle_try :: "faults \<Rightarrow> real \<Rightarrow> real \<Rightarrow> real \<Rightarrow> string \<Rightarrow> string option \<Rightarrow> sd_state \<Rightarrow> (exn + jsval) \<times> sd_state" where
  "addLeafletCircle_try lib lat lng radius color title s =
     (if sd_spatialMap s = None
      then block [console_write ''Map not initialized'', returns (JBool False)] s
      else block
        [lib_call lib (Call ''L.circle''),
         lib_call lib (Call ''circle.addTo''),
         js_when (truthy title) (lib_call lib (Call ''circle.bindPopup'')),
         returns (JBool True)] s)"

definition clearLeafletMarkers_try :: "faults \<Rightarrow> sd_state \<Rightarrow> (exn + jsval) \<times> sd_state" where
  "clearLeafletMarkers_try lib =
     block [(\<lambda>s. removeLayer_each lib (sd_spatialMap s) (sd_markers s) s),
            modify (\<lambda>s. s\<lparr>sd_markers := []\<rparr>),
            returns (JBool True)]"

definition clearLeafletPolygons_try :: "faults \<Rightarrow> sd_state \<Rightarrow> (exn + jsval) \<times> sd_state" where
  "clearLeafletPolygons_try lib =
     block [(\<lambda>s. removeLayer_each lib (sd_spatialMap s) (sd_polygons s) s),
            modify (\<lambda>s. s\<lparr>sd_polygons := []\<rparr>),
            returns (JBool True)]"

definition fitMapToBounds_try :: "faults \<Rightarrow> latlng \<times> latlng \<Rightarrow> sd_state \<Rightarrow> (exn + jsval) \<times> sd_state" where
  "fitMapToBounds_try lib bounds s =
     (if sd_spatialMap s = None
      then block [console_write ''Map not initialized'', returns (JBool False)] s
      else block [lib_call lib (Call ''map.fitBounds''), returns (JBool True)] s)"

definition setMapView_try :: "faults \<Rightarrow> real \<Rightarrow> real \<Rightarrow> real \<Rightarrow> sd_state \<Rightarrow> (exn + jsval) \<times> sd_state" where
  "setMapView_try lib lat lng zoom s =
     (if sd_spatialMap s = None
      then block [console_write ''Map not initialized'', returns (JBool False)] s
      else block [lib_call lib (Call ''map.setView''), returns (JBool True)] s)"

definition destroyLeafletMap_try :: "faults \<Rightarrow> sd_state \<Rightarrow> (exn + jsval) \<times> sd_state" where
  "destroyLeafletMap_try lib =
     block
      [(\<lambda>s. case sd_spatialMap s of
              Some h \<Rightarrow>
                block [lib_call lib (Map_remove h),
                       modify (\<lambda>s'. s'\<lparr>sd_spatialMap := None, sd_markers := [], sd_polygons := []\<rparr>)] s
            | None \<Rightarrow> returns JUndefined s),
       returns (JBool True)]"

text \<open>
  \<^verbatim>\<open>addLeafletHeatmap\<close>: \<open>plugin\<close> says whether \<^verbatim>\<open>L.heatLayer\<close> is defined; reading
  a field of \<^verbatim>\<open>options\<close> is a \<^verbatim>\<open>TypeError\<close> when it is \<^verbatim>\<open>null\<close> (\<open>None\<close>).
\<close>

definition addLeafletHeatmap_try :: "faults \<Rightarrow> bool \<Rightarrow> (string \<times> real) list option \<Rightarrow> sd_state \<Rightarrow> (exn + jsval) \<times> sd_state" where
  "addLeafletHeatmap_try lib plugin options s =
     (if sd_spatialMap s = None
      then block [console_write ''Map not initialized'', returns (JBool False)] s
      else if plugin
      then (case options of
              None \<Rightarrow> throws (TypeError ''options.radius'') s
            | Some _ \<Rightarrow>
                block [lib_call lib (Call ''L.heatLayer''), lib_call lib (Call ''heat.addTo''),
                       returns (JBool True)] s)
      else block [console_write ''Leaflet.heat plugin not loaded'', returns (JBool False)] s)"

text \<open>The exported functions, by name and arguments.\<close>

datatype sd_call =
    InitializeLeafletMap string real real real
  | AddLeafletMarker real real string string
  | AddLeafletPolygon "latlng list option"
  | AddLeafletCircle real real real string "string option"
  | ClearLeafletMarkers
  | ClearLeafletPolygons
  | FitMapToBounds "latlng \<times> latlng"
  | SetMapView real real real
  | DestroyLeafletMap
  | AddLeafletHeatmap "(string \<times> real) list option"

fun sd_try :: "faults \<Rightarrow> bool \<Rightarrow> sd_call \<Rightarrow> sd_state \<Rightarrow> (exn + jsval) \<times> sd_state" where
  "sd_try lib plugin (InitializeLeafletMap mapId centerLat centerLng zoom) =
     initializeLeafletMap_try lib mapId centerLat centerLng zoom"
| "sd_try lib plugin (AddLeafletMarker lat lng title iconColor) = addLeafletMarker_try lib lat lng title iconColor"
| "sd_try lib plugin (AddLeafletPolygon paths) = addLeafletPolygon_try lib paths"
| "sd_try lib plugin (AddLeafletCircle lat lng radius color title) = addLeafletCircle_try lib lat lng radius color title"
| "sd_try lib plugin ClearLeafletMarkers = clearLeafletMarkers_try lib"
| "sd_try lib plugin ClearLeafletPolygons = clearLeafletPolygons_try lib"
| "sd_try lib plugin (FitMapToBounds bounds) = fitMapToBounds_try lib bounds"
| "sd_try lib plugin (SetMapView lat lng zoom) = setMapView_try lib lat lng zoom"
| "sd_try lib plugin DestroyLeafletMap = destroyLeafletMap_try lib"
| "sd_try lib plugin (AddLeafletHeatmap options) = addLeafletHeatmap_try lib plugin options"

fun sd_message :: "sd_call \<Rightarrow> string" where
  "sd_message (InitializeLeafletMap _ _ _ _) = ''Error initializing Leaflet map:''"
| "sd_message (AddLeafletMarker _ _ _ _) = ''Error adding marker:''"
| "sd_message (AddLeafletPolygon _) = ''Error adding polygon:''"
| "sd_message (AddLeafletCircle _ _ _ _ _) = ''Error adding circle:''"
| "sd_message ClearLeafletMarkers = ''Error clearing markers:''"
| "sd_message ClearLeafletPolygons = ''Error clearing polygons:''"
| "sd_message (FitMapToBounds _) = ''Error fitting bounds:''"
| "sd_message (SetMapView _ _ _) = ''Error setting map view:''"
| "sd_message DestroyLeafletMap = ''Error destroying map:''"
| "sd_message (AddLeafletHeatmap _) = ''Error adding heatmap:''"

definition sd_invoke :: "faults \<Rightarrow> bool \<Rightarrow> sd_call \<Rightarrow> sd_state \<Rightarrow> (exn + jsval) \<times> sd_state" where
  "sd_invoke lib plugin c = try_catch (sd_try lib plugin c) (sd_failed (sd_message c))"

text \<open>The functions that test \<^verbatim>\<open>spatialMap\<close> before anything else.\<close>

fun sd_guarded :: "sd_call \<Rightarrow> bool" where
  "sd_guarded (AddLeafletMarker _ _ _ _) = True"
| "sd_guarded (AddLeafletPolygon _) = True"
| "sd_guarded (AddLeafletCircle _ _ _ _ _) = True"
| "sd_guarded (FitMapToBounds _) = True"
| "sd_guarded (SetMapView _ _ _) = True"
| "sd_guarded (AddLeafletHeatmap _) = True"
| "sd_guarded _ = False"

section \<open>Leaflet wrappers: reachable states and invariants\<close>

text \<open>
  The states the dashboard wrapper can be in: it starts in \<open>sd_init\<close> and every call
  of an exported function leads to the next state.
\<close>

inductive sd_reachable :: "sd_state \<Rightarrow> bool" where
  start: "sd_reachable sd_init"
| call: "sd_reachable s \<Longrightarrow> sd_reachable (snd (sd_invoke lib plugin c s))"

text \<open>
  While the map handle is \<^verbatim>\<open>null\<close> the registries are empty: in the GIS wrapper and in
  the dashboard wrapper.
\<close>

definition gis_inv :: "gis_state \<Rightarrow> bool" where
  "gis_inv s = (gis_map s = None \<longrightarrow> gis_layers s = [] \<and> gis_markers s = [])"

definition sd_inv :: "sd_state \<Rightarrow> bool" where
  "sd_inv s = (sd_spatialMap s = None \<longrightarrow> sd_markers s = [] \<and> sd_polygons s = [])"

text \<open>
  Two relations between a state and a later one: \<open>gis_grows\<close>, a map handle once set
  stays set and the registries are as before; \<open>only_adds\<close>, the calls made in between
  include no \<^verbatim>\<open>map.remove()\<close>.
\<close>

definition gis_grows :: "gis_state \<Rightarrow> gis_state \<Rightarrow> bool" where
  "gis_grows s s' =
     ((gis_map s \<noteq> None \<longrightarrow> gis_map s' \<noteq> None) \<and> gis_layers s' = gis_layers s
      \<and> gis_markers s' = gis_markers s)"

definition only_adds :: "'a page_scheme \<Rightarrow> 'a page_scheme \<Rightarrow> bool" where
  "only_adds s s' = (\<exists>tr. trace s' = trace s @ tr \<and> (\<forall>h ok. (Map_remove h, ok) \<notin> set tr))"

section \<open>Example values\<close>

text \<open>Concrete requests, responses and worlds for the evaluations below.\<close>

definition example_origin :: string where
  "example_origin = ''https://council.example''"

definition example_request :: "string \<Rightarrow> string \<Rightarrow> string \<Rightarrow> string \<Rightarrow> request" where
  "example_request m md p q =
     \<lparr>rq_url = \<lparr>origin = example_origin, pathname = p, search = q, fragment = []\<rparr>,
      rq_method = m, rq_mode = md, rq_headers = []\<rparr>"

definition ok_response :: "string \<Rightarrow> response" where
  "ok_response b = \<lparr>status = 200, statusText = ''OK'', body = b, vary = []\<rparr>"

definition quiet_world :: "(request \<Rightarrow> response option) \<Rightarrow> world" where
  "quiet_world net = \<lparr>respond = net, meanwhile = (\<lambda>cs. cs), location_origin = example_origin\<rparr>"

text \<open>The entry a cache holds for a request and its response.\<close>

definition entry :: "request \<Rightarrow> response \<Rightarrow> stored_request \<times> response" where
  "entry rq rs = (stored_of rq, rs)"

lemmas example_defs = example_origin_def example_request_def ok_response_def quiet_world_def
  entry_def stored_of_def CACHE_NAME_def RUNTIME_CACHE_def OFFLINE_URL_def

text \<open>A library that never throws.\<close>

definition no_faults :: faults where
  "no_faults n c = False"

section \<open>Theorems: the strategy selector\<close>

lemma matches_static_asset_suffix:
  "matches_static_asset p \<longleftrightarrow> (\<exists>ext \<in> set static_extensions. suffix (CHR ''.'' # ext) p)"
proof
  assume "matches_static_asset p"
  then obtain i where i: "i < length p" "p ! i = CHR ''.''" "drop (Suc i) p \<in> set static_extensions"
    by (auto simp: matches_static_asset_def list_ex_iff)
  have "p = take i p @ (p ! i) # drop (Suc i) p"
    using i(1) by (simp add: id_take_nth_drop)
  then have "suffix (CHR ''.'' # drop (Suc i) p) p"
    using i(2) by (metis suffixI)
  with i(3) show "\<exists>ext \<in> set static_extensions. suffix (CHR ''.'' # ext) p"
    by blast
next
  assume "\<exists>ext \<in> set static_extensions. suffix (CHR ''.'' # ext) p"
  then obtain ext zs where e: "ext \<in> set static_extensions" "p = zs @ CHR ''.'' # ext"
    by (auto simp: suffix_def)
  have "length zs < length p" "p ! length zs = CHR ''.''" "drop (Suc (length zs)) p = ext"
    using e(2) by simp_all
  with e(1) show "matches_static_asset p"
    unfolding matches_static_asset_def list_ex_iff by (metis atLeast0LessThan lessThan_iff set_upt)
qed

text \<open>
  Claim C1. \<open>getCachingStrategy\<close> answers cache-first for a path that ends in a dot and
  one of the static-asset extensions, or that starts with \<^verbatim>\<open>/_framework/\<close> or
  \<^verbatim>\<open>/_content/\<close>; network-first for a path under \<^verbatim>\<open>/api/\<close>, a path ending in
  \<^verbatim>\<open>/\<close> or \<^verbatim>\<open>.html\<close>, and every other path. The rules are tried in this order and
  the first that matches decides. No request gets stale-while-revalidate, network-only or
  cache-only.
\<close>

theorem getCachingStrategy_rules:
  "getCachingStrategy rq =
     (if (\<exists>ext \<in> set static_extensions. suffix (CHR ''.'' # ext) (pathname (rq_url rq))) then CACHE_FIRST
      else if prefix ''/_framework/'' (pathname (rq_url rq)) then CACHE_FIRST
      else if prefix ''/_content/'' (pathname (rq_url rq)) then CACHE_FIRST
      else if prefix ''/api/'' (pathname (rq_url rq)) then NETWORK_FIRST
      else if suffix ''/'' (pathname (rq_url rq)) \<or> suffix ''.html'' (pathname (rq_url rq)) then NETWORK_FIRST
      else NETWORK_FIRST)
   \<and> getCachingStrategy rq \<notin> {STALE_WHILE_REVALIDATE, NETWORK_ONLY, CACHE_ONLY}"
  by (simp add: getCachingStrategy_def Let_def matches_static_asset_suffix)

theorem getCachingStrategy_rules_witness:
  "getCachingStrategy (example_request ''GET'' ''cors'' ''/api/report.css'' []) = CACHE_FIRST
   \<and> getCachingStrategy (example_request ''GET'' ''cors'' ''/_framework/blazor.webassembly.js'' []) = CACHE_FIRST
   \<and> getCachingStrategy (example_request ''GET'' ''cors'' ''/_content/lib/data.bin'' []) = CACHE_FIRST
   \<and> getCachingStrategy (example_request ''GET'' ''cors'' ''/api/users'' []) = NETWORK_FIRST
   \<and> getCachingStrategy (example_request ''GET'' ''cors'' ''/index.html'' []) = NETWORK_FIRST
   \<and> getCachingStrategy (example_request ''GET'' ''cors'' ''/manifest.json'' []) = NETWORK_FIRST"
  using getCachingStrategy_rules [of "example_request ''GET'' ''cors'' ''/api/report.css'' []"]
    getCachingStrategy_rules [of "example_request ''GET'' ''cors'' ''/_framework/blazor.webassembly.js'' []"]
    getCachingStrategy_rules [of "example_request ''GET'' ''cors'' ''/_content/lib/data.bin'' []"]
    getCachingStrategy_rules [of "example_request ''GET'' ''cors'' ''/api/users'' []"]
    getCachingStrategy_rules [of "example_request ''GET'' ''cors'' ''/index.html'' []"]
    getCachingStrategy_rules [of "example_request ''GET'' ''cors'' ''/manifest.json'' []"]
  by (simp add: example_request_def example_origin_def static_extensions_def suffix_to_prefix)

text \<open>
  So the fetch handler answers a same-origin HTTP request with \<open>cacheFirst\<close> or with
  \<open>networkFirst\<close>, and with nothing else.
\<close>

lemma on_fetch_dispatch:
  assumes "origin (rq_url rq) = location_origin w" and "prefix ''http'' (href (rq_url rq))"
  shows "on_fetch w rq s =
     Some (case (if getCachingStrategy rq = CACHE_FIRST then cacheFirst w rq s else networkFirst w rq s)
           of (r, s') \<Rightarrow> (Some r, s'))"
proof (cases "getCachingStrategy rq")
  case CACHE_FIRST
  with assms show ?thesis by (simp add: on_fetch_def)
next
  case NETWORK_FIRST
  with assms show ?thesis by (simp add: on_fetch_def)
qed (simp_all add: getCachingStrategy_def Let_def split: if_splits)

theorem on_fetch_dispatch_witness:
  "on_fetch (quiet_world (\<lambda>_. None)) (example_request ''GET'' ''no-cors'' ''/css/app.css'' [])
      \<lparr>caches = [], fetched = []\<rparr>
     = Some (Some unavailable, \<lparr>caches = [], fetched = [example_request ''GET'' ''no-cors'' ''/css/app.css'' []]\<rparr>)
   \<and> on_fetch (quiet_world (\<lambda>_. None))
        \<lparr>rq_url = \<lparr>origin = ''https://elsewhere.example'', pathname = ''/api/wards'', search = [],
           fragment = []\<rparr>, rq_method = ''GET'', rq_mode = ''cors'', rq_headers = []\<rparr>
        \<lparr>caches = [], fetched = []\<rparr> = None"
  using on_fetch_dispatch [of "example_request ''GET'' ''no-cors'' ''/css/app.css'' []"
      "quiet_world (\<lambda>_. None)" "\<lparr>caches = [], fetched = []\<rparr>"]
  by (simp add: on_fetch_def cacheFirst_def fetch_def getCachingStrategy_def matches_static_asset_def
      static_extensions_def Let_def href_def example_defs)

section \<open>Theorems: the activate handler\<close>

lemma fold_caches_delete:
  "fold caches_delete ns cs = filter (\<lambda>e. fst e \<notin> set ns) cs"
  by (induction ns arbitrary: cs) (auto simp: caches_delete_def intro: filter_cong)

text \<open>
  Claim C5. The activate handler deletes every cache whose name is neither the precache
  name nor the runtime cache name, whatever else holds, and leaves those two caches, with
  their entries, as they were.
\<close>

theorem activate_keeps_current:
  "activate cs = filter (\<lambda>e. fst e = CACHE_NAME \<or> fst e = RUNTIME_CACHE) cs"
  unfolding activate_def fold_caches_delete caches_keys_def
  by (rule filter_cong) auto

theorem activate_keeps_current_witness:
  "activate
     [(''council-app-v0.9.0'', [entry (example_request ''GET'' ''cors'' ''/index.html'' []) (ok_response ''old'')]),
      (CACHE_NAME, [entry (example_request ''GET'' ''cors'' ''/index.html'' []) (ok_response ''new'')]),
      (''other'', []),
      (RUNTIME_CACHE, [entry (example_request ''GET'' ''cors'' ''/api/wards'' []) (ok_response ''[1]'')])]
   = [(CACHE_NAME, [entry (example_request ''GET'' ''cors'' ''/index.html'' []) (ok_response ''new'')]),
      (RUNTIME_CACHE, [entry (example_request ''GET'' ''cors'' ''/api/wards'' []) (ok_response ''[1]'')])]"
  using activate_keeps_current [of
     "[(''council-app-v0.9.0'', [entry (example_request ''GET'' ''cors'' ''/index.html'' []) (ok_response ''old'')]),
      (CACHE_NAME, [entry (example_request ''GET'' ''cors'' ''/index.html'' []) (ok_response ''new'')]),
      (''other'', []),
      (RUNTIME_CACHE, [entry (example_request ''GET'' ''cors'' ''/api/wards'' []) (ok_response ''[1]'')])]"]
  by (simp add: CACHE_NAME_def RUNTIME_CACHE_def)

section \<open>Theorems: the strategy executors\<close>

lemma map_of_cache_put:
  "map_of (cache_put n rq rs cs) m =
     (if m = n
      then map_option (\<lambda>c. filter (\<lambda>e. \<not> request_matches rq e) c @ [(stored_of rq, rs)]) (map_of cs n)
      else map_of cs m)"
  by (induction cs) (auto simp: cache_put_def)

lemma map_of_caches_open:
  "map_of (caches_open n cs) m = (if m = n \<and> map_of cs n = None then Some [] else map_of cs m)"
proof (cases "n \<in> fst ` set cs")
  case True
  then have "map_of cs n \<noteq> None" by (simp add: map_of_eq_None_iff)
  with True show ?thesis by (simp add: caches_open_def caches_keys_def)
next
  case False
  then have "map_of cs n = None" by (simp add: map_of_eq_None_iff)
  with False show ?thesis
    by (auto simp: caches_open_def caches_keys_def map_add_def split: option.splits)
qed

lemma the_cache_caches_open: "the_cache m (caches_open n cs) = the_cache m cs"
  by (auto simp: the_cache_def map_of_caches_open split: option.splits)

lemma accepted_matches_itself: "put_accepts rq rs \<Longrightarrow> request_matches rq (stored_of rq, rs)"
  by (auto simp: put_accepts_def request_matches_def same_resource_def stored_of_def list_all_iff)

lemma cache_match_append_same:
  assumes "put_accepts rq rs"
  shows "cache_match (filter (\<lambda>e. \<not> request_matches rq e) c @ [(stored_of rq, rs)]) rq = Some rs"
proof -
  have "find (request_matches rq) (filter (\<lambda>e. \<not> request_matches rq e) c @ [(stored_of rq, rs)])
      = Some (stored_of rq, rs)"
    using accepted_matches_itself [OF assms] by (induction c) auto
  then show ?thesis by (simp add: cache_match_def)
qed

lemma stored_copy_found:
  assumes "put_accepts rq rs"
  shows "cache_match (the_cache n (cache_put n rq rs (caches_open n cs))) rq = Some rs"
proof (cases "map_of cs n")
  case None
  then have "the_cache n (cache_put n rq rs (caches_open n cs)) = [(stored_of rq, rs)]"
    by (simp add: the_cache_def map_of_cache_put map_of_caches_open)
  with cache_match_append_same [OF assms, of "[]"] show ?thesis by simp
next
  case (Some c)
  then have "the_cache n (cache_put n rq rs (caches_open n cs))
      = filter (\<lambda>e. \<not> request_matches rq e) c @ [(stored_of rq, rs)]"
    by (simp add: the_cache_def map_of_cache_put map_of_caches_open)
  with cache_match_append_same [OF assms, of c] show ?thesis by simp
qed

lemma caches_match_get_only: "rq_method rq \<noteq> ''GET'' \<Longrightarrow> caches_match cs rq = None"
proof (induction cs)
  case Nil
  show ?case by simp
next
  case (Cons nc cs)
  have "find (request_matches rq) c = None" for c
    using Cons.prems by (induction c) (auto simp: request_matches_def)
  with Cons show ?case by (cases nc) (simp add: cache_match_def)
qed

text \<open>
  Claim C2, as amended. \<open>cacheFirst\<close> returns the cached entry and sends nothing to the
  network when the lookup finds an entry for the request (it finds none for a request
  whose method is not GET). When it finds none it fetches and returns the network's
  response; a copy is in the runtime cache afterwards exactly when the response has
  status 200 and the cache accepts the pair (a GET request with an HTTP(S) URL, a response
  without \<^verbatim>\<open>*\<close> in \<^verbatim>\<open>Vary\<close>). When the fetch rejects it returns the synthetic response
  with status 503.
\<close>

theorem cacheFirst_contract:
  "(caches_match (caches s) rq = Some c \<longrightarrow> cacheFirst w rq s = (c, s))
   \<and> (rq_method rq \<noteq> ''GET'' \<longrightarrow> caches_match (caches s) rq = None)
   \<and> (caches_match (caches s) rq = None \<and> respond w rq = Some rs \<longrightarrow>
        fst (cacheFirst w rq s) = rs
        \<and> fetched (snd (cacheFirst w rq s)) = fetched s @ [rq]
        \<and> caches (snd (cacheFirst w rq s)) =
            (if status rs = 200 \<and> put_accepts rq rs
             then cache_put RUNTIME_CACHE rq rs (caches_open RUNTIME_CACHE (meanwhile w (caches s)))
             else if status rs = 200 then caches_open RUNTIME_CACHE (meanwhile w (caches s))
             else meanwhile w (caches s))
        \<and> (status rs = 200 \<and> put_accepts rq rs \<longrightarrow>
             cache_match (the_cache RUNTIME_CACHE (caches (snd (cacheFirst w rq s)))) rq = Some rs)
        \<and> (\<not> (status rs = 200 \<and> put_accepts rq rs) \<longrightarrow>
             the_cache RUNTIME_CACHE (caches (snd (cacheFirst w rq s)))
               = the_cache RUNTIME_CACHE (meanwhile w (caches s))))
   \<and> (caches_match (caches s) rq = None \<and> respond w rq = None \<longrightarrow>
        fst (cacheFirst w rq s) = unavailable \<and> status (fst (cacheFirst w rq s)) = 503
        \<and> fetched (snd (cacheFirst w rq s)) = fetched s @ [rq]
        \<and> caches (snd (cacheFirst w rq s)) = meanwhile w (caches s))"
  by (simp add: cacheFirst_def fetch_def store_copy_def stored_copy_found unavailable_def
      caches_match_get_only the_cache_caches_open Let_def)

theorem cacheFirst_contract_witness:
  "cacheFirst (quiet_world (\<lambda>_. None)) (example_request ''GET'' ''no-cors'' ''/css/app.css'' [])
      \<lparr>caches = [(CACHE_NAME, [entry (example_request ''GET'' ''cors'' ''/css/app.css'' []) (ok_response ''a {}'')])],
       fetched = []\<rparr>
     = (ok_response ''a {}'',
        \<lparr>caches = [(CACHE_NAME, [entry (example_request ''GET'' ''cors'' ''/css/app.css'' []) (ok_response ''a {}'')])],
         fetched = []\<rparr>)
   \<and> cacheFirst (quiet_world (\<lambda>_. Some (ok_response ''b {}''))) (example_request ''GET'' ''no-cors'' ''/css/site.css'' [])
      \<lparr>caches = [], fetched = []\<rparr>
     = (ok_response ''b {}'',
        \<lparr>caches = [(RUNTIME_CACHE, [entry (example_request ''GET'' ''no-cors'' ''/css/site.css'' []) (ok_response ''b {}'')])],
         fetched = [example_request ''GET'' ''no-cors'' ''/css/site.css'' []]\<rparr>)
   \<and> cacheFirst (quiet_world (\<lambda>_. None)) (example_request ''GET'' ''no-cors'' ''/css/site.css'' [])
      \<lparr>caches = [], fetched = []\<rparr>
     = (unavailable, \<lparr>caches = [], fetched = [example_request ''GET'' ''no-cors'' ''/css/site.css'' []]\<rparr>)"
  using
    cacheFirst_contract [of
      "\<lparr>caches = [(CACHE_NAME, [entry (example_request ''GET'' ''cors'' ''/css/app.css'' []) (ok_response ''a {}'')])], fetched = []\<rparr>"
      "example_request ''GET'' ''no-cors'' ''/css/app.css'' []" "ok_response ''a {}''" "quiet_world (\<lambda>_. None)"]
    cacheFirst_contract [of "\<lparr>caches = [], fetched = []\<rparr>"
      "example_request ''GET'' ''no-cors'' ''/css/site.css'' []" "ok_response ''b {}''"
      "quiet_world (\<lambda>_. Some (ok_response ''b {}''))" "ok_response ''b {}''"]
    cacheFirst_contract [of "\<lparr>caches = [], fetched = []\<rparr>"
      "example_request ''GET'' ''no-cors'' ''/css/site.css'' []" "ok_response ''b {}''"
      "quiet_world (\<lambda>_. None)"]
  by (simp add: example_defs cache_match_def request_matches_def same_resource_def put_accepts_def
      caches_open_def caches_keys_def cache_put_def prod_eq_iff)

text \<open>
  A POST under \<^verbatim>\<open>/_content/\<close> is given to \<open>cacheFirst\<close>; the response has status
  200, and the runtime cache, newly opened, stays empty: the put of a POST rejects.
\<close>

theorem cacheFirst_post_counterexample:
  "getCachingStrategy (example_request ''POST'' ''cors'' ''/_content/Council.Forms/upload'' []) = CACHE_FIRST
   \<and> caches_match [] (example_request ''POST'' ''cors'' ''/_content/Council.Forms/upload'' []) = None
   \<and> status (ok_response ''saved'') = 200
   \<and> cacheFirst (quiet_world (\<lambda>_. Some (ok_response ''saved'')))
        (example_request ''POST'' ''cors'' ''/_content/Council.Forms/upload'' []) \<lparr>caches = [], fetched = []\<rparr>
      = (ok_response ''saved'',
         \<lparr>caches = [(RUNTIME_CACHE, [])],
          fetched = [example_request ''POST'' ''cors'' ''/_content/Council.Forms/upload'' []]\<rparr>)"
  by (simp add: cacheFirst_def fetch_def store_copy_def put_accepts_def caches_open_def caches_keys_def
      getCachingStrategy_def matches_static_asset_def static_extensions_def Let_def example_defs)

text \<open>
  Claim C3, as amended. \<open>networkFirst\<close> fetches first and returns the response; a copy
  is in the runtime cache afterwards exactly when the status is 200 and the cache accepts
  the pair (a GET request with an HTTP(S) URL, a response without \<^verbatim>\<open>*\<close> in
  \<^verbatim>\<open>Vary\<close>). When the fetch rejects, the cached entry is returned if the lookup finds
  one. When it finds none, the request is a navigation and the offline document is in
  Cache Storage, that document is returned. In every other case (also a navigation with
  no offline document cached) the synthetic 503 is returned.
\<close>

theorem networkFirst_contract:
  "(respond w rq = Some rs \<longrightarrow>
        fst (networkFirst w rq s) = rs
        \<and> fetched (snd (networkFirst w rq s)) = fetched s @ [rq]
        \<and> caches (snd (networkFirst w rq s)) =
            (if status rs = 200 \<and> put_accepts rq rs
             then cache_put RUNTIME_CACHE rq rs (caches_open RUNTIME_CACHE (meanwhile w (caches s)))
             else if status rs = 200 then caches_open RUNTIME_CACHE (meanwhile w (caches s))
             else meanwhile w (caches s))
        \<and> (status rs = 200 \<and> put_accepts rq rs \<longrightarrow>
             cache_match (the_cache RUNTIME_CACHE (caches (snd (networkFirst w rq s)))) rq = Some rs)
        \<and> (\<not> (status rs = 200 \<and> put_accepts rq rs) \<longrightarrow>
             the_cache RUNTIME_CACHE (caches (snd (networkFirst w rq s)))
               = the_cache RUNTIME_CACHE (meanwhile w (caches s))))
   \<and> (respond w rq = None \<longrightarrow>
        fetched (snd (networkFirst w rq s)) = fetched s @ [rq]
        \<and> caches (snd (networkFirst w rq s)) = meanwhile w (caches s)
        \<and> (caches_match (meanwhile w (caches s)) rq = Some c \<longrightarrow> fst (networkFirst w rq s) = c)
        \<and> (caches_match (meanwhile w (caches s)) rq = None \<and> rq_mode rq = ''navigate''
             \<and> caches_match (meanwhile w (caches s)) (offline_request w) = Some off \<longrightarrow>
             fst (networkFirst w rq s) = off)
        \<and> (caches_match (meanwhile w (caches s)) rq = None
             \<and> (rq_mode rq = ''navigate'' \<longrightarrow>
                  caches_match (meanwhile w (caches s)) (offline_request w) = None) \<longrightarrow>
             fst (networkFirst w rq s) = unavailable \<and> status (fst (networkFirst w rq s)) = 503))"
  by (auto simp: networkFirst_def fetch_def store_copy_def stored_copy_found unavailable_def
      the_cache_caches_open Let_def split: option.splits)

theorem networkFirst_contract_witness:
  "networkFirst (quiet_world (\<lambda>_. None))
      ((example_request ''GET'' ''navigate'' ''/reports'' [])\<lparr>rq_url :=
          \<lparr>origin = example_origin, pathname = ''/reports'', search = [], fragment = ''#wards''\<rparr>\<rparr>)
      \<lparr>caches = [(CACHE_NAME, [entry (example_request ''GET'' ''cors'' OFFLINE_URL []) (ok_response ''offline'')])],
       fetched = []\<rparr>
     = (ok_response ''offline'',
        \<lparr>caches = [(CACHE_NAME, [entry (example_request ''GET'' ''cors'' OFFLINE_URL []) (ok_response ''offline'')])],
         fetched = [(example_request ''GET'' ''navigate'' ''/reports'' [])\<lparr>rq_url :=
          \<lparr>origin = example_origin, pathname = ''/reports'', search = [], fragment = ''#wards''\<rparr>\<rparr>]\<rparr>)
   \<and> networkFirst (quiet_world (\<lambda>_. None)) (example_request ''GET'' ''cors'' ''/api/wards'' [])
      \<lparr>caches = [(RUNTIME_CACHE, [entry (example_request ''GET'' ''cors'' ''/api/wards'' []) (ok_response ''[1]'')])],
       fetched = []\<rparr>
     = (ok_response ''[1]'',
        \<lparr>caches = [(RUNTIME_CACHE, [entry (example_request ''GET'' ''cors'' ''/api/wards'' []) (ok_response ''[1]'')])],
         fetched = [example_request ''GET'' ''cors'' ''/api/wards'' []]\<rparr>)
   \<and> networkFirst (quiet_world (\<lambda>_. None)) (example_request ''GET'' ''cors'' ''/api/wards'' [])
      \<lparr>caches = [], fetched = []\<rparr>
     = (unavailable, \<lparr>caches = [], fetched = [example_request ''GET'' ''cors'' ''/api/wards'' []]\<rparr>)
   \<and> networkFirst (quiet_world (\<lambda>_. Some (ok_response ''[2]''))) (example_request ''GET'' ''cors'' ''/api/wards'' [])
      \<lparr>caches = [], fetched = []\<rparr>
     = (ok_response ''[2]'',
        \<lparr>caches = [(RUNTIME_CACHE, [entry (example_request ''GET'' ''cors'' ''/api/wards'' []) (ok_response ''[2]'')])],
         fetched = [example_request ''GET'' ''cors'' ''/api/wards'' []]\<rparr>)"
  using
    networkFirst_contract [of "quiet_world (\<lambda>_. None)"
      "(example_request ''GET'' ''navigate'' ''/reports'' [])\<lparr>rq_url :=
          \<lparr>origin = example_origin, pathname = ''/reports'', search = [], fragment = ''#wards''\<rparr>\<rparr>"
      "ok_response ''x''"
      "\<lparr>caches = [(CACHE_NAME, [entry (example_request ''GET'' ''cors'' OFFLINE_URL []) (ok_response ''offline'')])], fetched = []\<rparr>"
      "ok_response ''x''" "ok_response ''offline''"]
    networkFirst_contract [of "quiet_world (\<lambda>_. None)" "example_request ''GET'' ''cors'' ''/api/wards'' []"
      "ok_response ''x''"
      "\<lparr>caches = [(RUNTIME_CACHE, [entry (example_request ''GET'' ''cors'' ''/api/wards'' []) (ok_response ''[1]'')])], fetched = []\<rparr>"
      "ok_response ''[1]''" "ok_response ''x''"]
    networkFirst_contract [of "quiet_world (\<lambda>_. None)" "example_request ''GET'' ''cors'' ''/api/wards'' []"
      "ok_response ''x''" "\<lparr>caches = [], fetched = []\<rparr>" "ok_response ''x''" "ok_response ''x''"]
    networkFirst_contract [of "quiet_world (\<lambda>_. Some (ok_response ''[2]''))"
      "example_request ''GET'' ''cors'' ''/api/wards'' []"
      "ok_response ''[2]''" "\<lparr>caches = [], fetched = []\<rparr>" "ok_response ''x''" "ok_response ''x''"]
  by (simp add: example_defs offline_request_def cache_match_def request_matches_def same_resource_def
      put_accepts_def caches_open_def caches_keys_def cache_put_def prod_eq_iff sw_state.equality)

text \<open>
  The claim as written promises the offline document to every navigation that finds the
  network down and no entry of its own. After a \<^verbatim>\<open>CLEAR_CACHE\<close> message the precached
  offline document is gone with everything else, and the worker answers 503. It also
  promises a stored copy for every status-200 response: the answer to a POST under
  \<^verbatim>\<open>/api/\<close> is returned and not stored.
\<close>

theorem networkFirst_offline_counterexample:
  "on_message_CLEAR_CACHE
      [(CACHE_NAME, [entry (example_request ''GET'' ''cors'' OFFLINE_URL []) (ok_response ''offline'')])] = []
   \<and> respond (quiet_world (\<lambda>_. None)) (example_request ''GET'' ''navigate'' ''/reports'' []) = None
   \<and> caches_match [] (example_request ''GET'' ''navigate'' ''/reports'' []) = None
   \<and> rq_mode (example_request ''GET'' ''navigate'' ''/reports'' []) = ''navigate''
   \<and> caches_match [] (offline_request (quiet_world (\<lambda>_. None))) = None
   \<and> networkFirst (quiet_world (\<lambda>_. None)) (example_request ''GET'' ''navigate'' ''/reports'' [])
        \<lparr>caches = on_message_CLEAR_CACHE
           [(CACHE_NAME, [entry (example_request ''GET'' ''cors'' OFFLINE_URL []) (ok_response ''offline'')])],
         fetched = []\<rparr>
      = (unavailable, \<lparr>caches = [], fetched = [example_request ''GET'' ''navigate'' ''/reports'' []]\<rparr>)
   \<and> getCachingStrategy (example_request ''POST'' ''cors'' ''/api/permits'' []) = NETWORK_FIRST
   \<and> status (ok_response ''created'') = 200
   \<and> networkFirst (quiet_world (\<lambda>_. Some (ok_response ''created'')))
        (example_request ''POST'' ''cors'' ''/api/permits'' []) \<lparr>caches = [], fetched = []\<rparr>
      = (ok_response ''created'',
         \<lparr>caches = [(RUNTIME_CACHE, [])], fetched = [example_request ''POST'' ''cors'' ''/api/permits'' []]\<rparr>)"
  by (simp add: networkFirst_def fetch_def on_message_CLEAR_CACHE_def caches_keys_def
      caches_delete_def store_copy_def put_accepts_def caches_open_def getCachingStrategy_def
      matches_static_asset_def static_extensions_def Let_def example_defs)




section \<open>Theorems: background sync\<close>




lemma cache_delete_get_only: "rq_method rq \<noteq> ''GET'' \<Longrightarrow> cache_delete n rq cs = cs"
proof -
  assume m: "rq_method rq \<noteq> ''GET''"
  have "filter (\<lambda>e. \<not> request_matches rq e) c = c" for c
    using m by (simp add: request_matches_def)
  then have "(\<lambda>(n', c). if n' = n then (n', filter (\<lambda>e. \<not> request_matches rq e) c) else (n', c)) = (\<lambda>x. x)"
    by (auto simp: fun_eq_iff)
  then show ?thesis by (simp add: cache_delete_def)
qed

lemma sync_request_replays:
  assumes "str_includes (href (rq_url rq)) ''/api/''" and "rq_method rq \<noteq> ''GET''"
  shows "sync_request w rq s = s\<lparr>caches := meanwhile w (caches s), fetched := fetched s @ [rq]\<rparr>"
  using assms by (cases "respond w rq") (simp_all add: sync_request_def fetch_def cache_delete_get_only)



section \<open>Theorems: statements in sequence\<close>

lemmas js_defs = returns_def throws_def modify_def seq_def try_catch_def js_when_def
  lib_call_def console_write_def

lemma keeps_seq:
  assumes "\<And>s. R s (snd (m s))" and "\<And>s. R s (snd (k s))" and "transp R"
  shows "R s (snd (seq m k s))"
proof (cases "m s")
  case (Pair r s')
  show ?thesis
  proof (cases r)
    case (Inl e)
    with Pair assms(1) [of s] show ?thesis by (simp add: seq_def)
  next
    case (Inr v)
    with Pair assms(1) [of s] assms(2) [of s'] assms(3) show ?thesis
      by (auto simp: seq_def dest: transpD)
  qed
qed

lemma keeps_block:
  assumes "\<And>m s. m \<in> set ms \<Longrightarrow> R s (snd (m s))" and "reflp R" and "transp R"
  shows "R s (snd (block ms s))"
  using assms(1)
proof (induction ms arbitrary: s rule: block.induct)
  case 1
  from assms(2) show ?case by (simp add: returns_def reflpD)
next
  case (2 m)
  then show ?case by simp
next
  case (3 m m' ms)
  have "R s (snd (seq m (block (m' # ms)) s))"
    by (rule keeps_seq) (use 3 assms(3) in auto)
  then show ?case by simp
qed

lemma keeps_try_catch:
  assumes "\<And>s. R s (snd (m s))" and "\<And>e s. R s (snd (h e s))" and "transp R"
  shows "R s (snd (try_catch m h s))"
proof (cases "m s")
  case (Pair r s')
  show ?thesis
  proof (cases r)
    case (Inl e)
    with Pair assms(1) [of s] assms(2) [of s' e] assms(3) show ?thesis
      by (auto simp: try_catch_def dest: transpD)
  next
    case (Inr v)
    with Pair assms(1) [of s] show ?thesis by (simp add: try_catch_def)
  qed
qed

lemma seq_valueE:
  assumes "fst (seq m k s) = Inr v"
  obtains s' where "fst (k s') = Inr v"
  using assms by (auto simp: seq_def split: prod.splits sum.splits)

lemma removeLayer_each_state:
  "\<exists>tr. snd (removeLayer_each lib m xs s) = s\<lparr>trace := tr\<rparr>"
proof -
  have "\<exists>tr. snd (block (map (\<lambda>_. lib_call lib c) xs) s) = s\<lparr>trace := tr\<rparr>" for c
  proof (induction xs arbitrary: s)
    case Nil
    show ?case by (auto simp: returns_def intro: exI [of _ "trace s"])
  next
    case (Cons x xs)
    show ?case
    proof (cases xs)
      case Nil
      then show ?thesis by (auto simp: lib_call_def)
    next
      case (Cons y ys)
      from Cons.IH [of "s\<lparr>trace := trace s @ [(c, True)]\<rparr>"]
      show ?thesis
        unfolding Cons by (auto simp: seq_def lib_call_def)
    qed
  qed
  then show ?thesis
    by (auto simp: removeLayer_each_def returns_def throws_def intro: exI [of _ "trace s"])
qed

lemma removeLayer_each_returns:
  assumes "\<forall>n. \<not> lib n (Call ''map.removeLayer'')" and "xs \<noteq> [] \<longrightarrow> m \<noteq> None"
  shows "\<exists>v. fst (removeLayer_each lib m xs s) = Inr v"
proof -
  have "\<exists>v. fst (block (map (\<lambda>_. lib_call lib (Call ''map.removeLayer'')) xs) s) = Inr v"
  proof (induction xs arbitrary: s)
    case Nil
    show ?case by (simp add: returns_def)
  next
    case (Cons x xs)
    show ?case
    proof (cases xs)
      case Nil
      with assms(1) show ?thesis by (simp add: lib_call_def)
    next
      case (Cons y ys)
      from Cons.IH [of "s\<lparr>trace := trace s @ [(Call ''map.removeLayer'', True)]\<rparr>"] assms(1)
      show ?thesis
        unfolding Cons by (simp add: seq_def lib_call_def)
    qed
  qed
  with assms(2) show ?thesis
    by (auto simp: removeLayer_each_def returns_def)
qed

section \<open>Theorems: overlays before the map exists\<close>

text \<open>
  Claim C7, as amended. Called while the map handle is \<^verbatim>\<open>null\<close>, every add-overlay
  operation returns without throwing, makes no call into Leaflet and leaves every module
  variable and registry as it was. In \<^verbatim>\<open>js/leafletWrapper.js\<close> (\<open>addMarker\<close>,
  \<open>addCircle\<close>, \<open>addPolygon\<close>, \<open>addPolyline\<close>, \<open>addGeoJson\<close>) the call writes
  \<^verbatim>\<open>Map not initialized\<close> to the console and returns \<^verbatim>\<open>undefined\<close>. In
  \<^verbatim>\<open>leafletMap.js\<close> (\<open>addMarker\<close>, \<open>addParcel\<close>, \<open>addChiefdomBoundary\<close>) it
  returns \<^verbatim>\<open>null\<close> and in the GIS wrapper \<^verbatim>\<open>undefined\<close>, both without writing to the
  console.
\<close>

theorem add_overlay_without_map:
  "(lw_map s = None \<longrightarrow>
      lw_addMarker lib lat lng popupText s = (Inr JUndefined, s\<lparr>console := console s @ [''Map not initialized'']\<rparr>)
      \<and> lw_addCircle lib lat lng radius s = (Inr JUndefined, s\<lparr>console := console s @ [''Map not initialized'']\<rparr>)
      \<and> lw_addPolygon lib latLngs s = (Inr JUndefined, s\<lparr>console := console s @ [''Map not initialized'']\<rparr>)
      \<and> lw_addPolyline lib latLngs s = (Inr JUndefined, s\<lparr>console := console s @ [''Map not initialized'']\<rparr>)
      \<and> lw_addGeoJson lib geoJson s = (Inr JUndefined, s\<lparr>console := console s @ [''Map not initialized'']\<rparr>))
   \<and> (lm_map t = None \<longrightarrow>
      lm_addMarker lib lat lng title popupText color t = (Inr JNull, t)
      \<and> lm_addParcel lib latLngs properties t = (Inr JNull, t)
      \<and> lm_addChiefdomBoundary lib latLngs chiefdomName color t = (Inr JNull, t))
   \<and> (gis_map u = None \<longrightarrow>
      gis_addMarker lib now lat lng popupText u = (Inr JUndefined, u)
      \<and> gis_addCircle lib now lat lng radius u = (Inr JUndefined, u)
      \<and> gis_addPolygon lib now latLngs u = (Inr JUndefined, u)
      \<and> gis_addGeoJson lib now geoJson u = (Inr JUndefined, u))"
  by (simp add: lw_addMarker_def lw_addCircle_def lw_addPolygon_def lw_addPolyline_def
      lw_addGeoJson_def lm_addMarker_def lm_addParcel_def lm_addChiefdomBoundary_def
      gis_addMarker_def gis_addCircle_def gis_addPolygon_def gis_addGeoJson_def js_defs)

theorem add_overlay_without_map_witness:
  "lw_addMarker no_faults (-15.4) 28.3 (Some ''Civic Centre'') lw_init
     = (Inr JUndefined, lw_init\<lparr>console := [''Map not initialized'']\<rparr>)
   \<and> lw_addPolyline no_faults [(-15.4, 28.3), (-15.5, 28.4)] lw_init
     = (Inr JUndefined, lw_init\<lparr>console := [''Map not initialized'']\<rparr>)
   \<and> lm_addParcel no_faults [(-15.4, 28.3), (-15.5, 28.4), (-15.5, 28.3)]
       (Some \<lparr>pp_popupContent = Some ''Plot 7'', pp_id = ''7''\<rparr>) lm_init = (Inr JNull, lm_init)
   \<and> gis_addCircle no_faults 1700000000000 (-15.4) 28.3 500 gis_init = (Inr JUndefined, gis_init)"
  using add_overlay_without_map [of lw_init no_faults "-15.4" "28.3" "Some ''Civic Centre''" 500
      "[(-15.4, 28.3), (-15.5, 28.4)]" "Feature (Point (0, 0))" lm_init "''t''" "''blue''"
      "Some \<lparr>pp_popupContent = Some ''Plot 7'', pp_id = ''7''\<rparr>" "''c''" gis_init 1700000000000]
    add_overlay_without_map [of lw_init no_faults "-15.4" "28.3" "Some ''Civic Centre''" 500
      "[(-15.4, 28.3), (-15.5, 28.4), (-15.5, 28.3)]" "Feature (Point (0, 0))" lm_init "''t''" "''blue''"
      "Some \<lparr>pp_popupContent = Some ''Plot 7'', pp_id = ''7''\<rparr>" "''c''" gis_init 1700000000000]
  by (simp add: lw_init_def lm_init_def gis_init_def)

text \<open>
  \<open>addMarker\<close> of \<^verbatim>\<open>leafletMap.js\<close> and of the GIS wrapper on a fresh module: the
  operation is a no-op, and the console stays empty.
\<close>

theorem addMarker_silent_counterexample:
  "lm_map lm_init = None
   \<and> lm_addMarker no_faults (-15.4) 28.3 ''Ward 1'' (Some ''Ward 1 office'') ''blue'' lm_init = (Inr JNull, lm_init)
   \<and> console (snd (lm_addMarker no_faults (-15.4) 28.3 ''Ward 1'' (Some ''Ward 1 office'') ''blue'' lm_init)) = []
   \<and> gis_map gis_init = None
   \<and> console (snd (gis_addMarker no_faults 1700000000000 (-15.4) 28.3 None gis_init)) = []"
  by (simp add: lm_init_def lm_addMarker_def gis_init_def gis_addMarker_def js_defs)

section \<open>Theorems: one live map\<close>

text \<open>
  Claim C8. \<open>initializeMap\<close> of \<^verbatim>\<open>leafletMap.js\<close> called twice, on two elements,
  with a library that never throws: both calls return \<^verbatim>\<open>true\<close>, the handle is the second
  instance, and the first instance is still live, since no \<^verbatim>\<open>map.remove()\<close> was called.
\<close>

theorem lm_initializeMap_twice_leaks:
  "fst (lm_initializeMap no_faults ''map-b'' (-15.4) 28.3 12
          (snd (lm_initializeMap no_faults ''map-a'' (-15.4) 28.3 12 lm_init))) = Inr (JBool True)
   \<and> live_maps (snd (lm_initializeMap no_faults ''map-a'' (-15.4) 28.3 12 lm_init)) = [0]
   \<and> live_maps (snd (lm_initializeMap no_faults ''map-b'' (-15.4) 28.3 12
          (snd (lm_initializeMap no_faults ''map-a'' (-15.4) 28.3 12 lm_init)))) = [0, 6]
   \<and> lm_map (snd (lm_initializeMap no_faults ''map-b'' (-15.4) 28.3 12
          (snd (lm_initializeMap no_faults ''map-a'' (-15.4) 28.3 12 lm_init)))) = Some 6"
  by (simp add: lm_initializeMap_def lm_init_def no_faults_def live_maps_def js_defs)

text \<open>
  Whatever the library does, \<open>initializeMap\<close> never calls \<^verbatim>\<open>map.remove()\<close>. The
  other three wrappers release the instance they hold before they create the next, and
  the two dispose functions release it and reset the handle.
\<close>

lemma only_adds_order: "reflp only_adds" "transp only_adds"
  by (auto simp: only_adds_def reflp_def transp_def)

lemma lm_initializeMap_never_removes:
  "only_adds s (snd (lm_initializeMap lib elementId latitude longitude zoom s))"
  unfolding lm_initializeMap_def
proof (rule keeps_try_catch [OF _ _ only_adds_order(2)])
  fix s :: lm_state
  show "only_adds s (snd (block
         [\<lambda>s. block [lib_call lib (L_map elementId), lib_call lib (Call ''map.setView''),
                    modify (\<lambda>s'. s'\<lparr>lm_map := Some (length (trace s))\<rparr>)] s,
          lib_call lib (Call ''L.tileLayer''), lib_call lib (Call ''tileLayer.addTo''),
          lib_call lib (Call ''L.control.scale''), lib_call lib (Call ''scale.addTo''),
          returns (JBool True)] s))"
  proof (rule keeps_block [OF _ only_adds_order])
    fix m :: "lm_state \<Rightarrow> (exn + jsval) \<times> lm_state" and s :: lm_state
    assume "m \<in> set
         [\<lambda>s. block [lib_call lib (L_map elementId), lib_call lib (Call ''map.setView''),
                    modify (\<lambda>s'. s'\<lparr>lm_map := Some (length (trace s))\<rparr>)] s,
          lib_call lib (Call ''L.tileLayer''), lib_call lib (Call ''tileLayer.addTo''),
          lib_call lib (Call ''L.control.scale''), lib_call lib (Call ''scale.addTo''),
          returns (JBool True)]"
    then consider
        "m = (\<lambda>s. block [lib_call lib (L_map elementId), lib_call lib (Call ''map.setView''),
                    modify (\<lambda>s'. s'\<lparr>lm_map := Some (length (trace s))\<rparr>)] s)"
      | c where "m = lib_call lib (Call c)" | "m = returns (JBool True)"
      by auto
    then show "only_adds s (snd (m s))"
    proof cases
      case 1
      have "only_adds s (snd (block [lib_call lib (L_map elementId), lib_call lib (Call ''map.setView''),
                    modify (\<lambda>s'. s'\<lparr>lm_map := Some (length (trace s))\<rparr>)] s))"
        by (rule keeps_block [OF _ only_adds_order]) (auto simp: only_adds_def lib_call_def modify_def)
      with 1 show ?thesis by simp
    qed (auto simp: only_adds_def lib_call_def returns_def)
  qed
next
  fix e and s :: lm_state
  show "only_adds s (snd (block [console_write ''Error initializing map:'', returns (JBool False)] s))"
    by (simp add: only_adds_def console_write_def returns_def seq_def)
qed

lemma lw_createMap_releases_first:
  assumes "lw_map s = Some h"
  shows "\<exists>ok tr. trace (snd (lw_createMap lib elementId lat lng zoom s)) = trace s @ (Map_remove h, ok) # tr"
proof (cases "lib (length (trace s)) (Map_remove h)")
  case True
  with assms have "trace (snd (lw_createMap lib elementId lat lng zoom s)) = trace s @ (Map_remove h, False) # []"
    by (simp add: lw_createMap_def seq_def lib_call_def)
  then show ?thesis by blast
next
  case False
  let ?s1 = "s\<lparr>trace := trace s @ [(Map_remove h, True)]\<rparr>"
  let ?rest = "block
      [\<lambda>s. block [lib_call lib (L_map elementId), lib_call lib (Call ''map.setView''),
                 modify (\<lambda>s'. s'\<lparr>lw_map := Some (length (trace s))\<rparr>)] s,
       lib_call lib (Call ''L.tileLayer''), lib_call lib (Call ''tileLayer.addTo''),
       lib_call lib (Call ''L.layerGroup''), lib_call lib (Call ''layerGroup.addTo''),
       modify (\<lambda>s. s\<lparr>lw_layerGroup := Some []\<rparr>)]"
  have grows: "\<exists>tr. trace (snd (?rest s0)) = trace s0 @ tr" for s0 :: lw_state
  proof (rule keeps_block [where R = "\<lambda>s s'. \<exists>tr. trace s' = trace s @ tr"])
    fix m :: "lw_state \<Rightarrow> (exn + jsval) \<times> lw_state" and s :: lw_state
    assume "m \<in> set
      [\<lambda>s. block [lib_call lib (L_map elementId), lib_call lib (Call ''map.setView''),
                 modify (\<lambda>s'. s'\<lparr>lw_map := Some (length (trace s))\<rparr>)] s,
       lib_call lib (Call ''L.tileLayer''), lib_call lib (Call ''tileLayer.addTo''),
       lib_call lib (Call ''L.layerGroup''), lib_call lib (Call ''layerGroup.addTo''),
       modify (\<lambda>s. s\<lparr>lw_layerGroup := Some []\<rparr>)]"
    then consider
        "m = (\<lambda>s. block [lib_call lib (L_map elementId), lib_call lib (Call ''map.setView''),
                 modify (\<lambda>s'. s'\<lparr>lw_map := Some (length (trace s))\<rparr>)] s)"
      | c where "m = lib_call lib (Call c)" | "m = modify (\<lambda>s. s\<lparr>lw_layerGroup := Some []\<rparr>)"
      by auto
    then show "\<exists>tr. trace (snd (m s)) = trace s @ tr"
    proof cases
      case 1
      have "\<exists>tr. trace (snd (block [lib_call lib (L_map elementId), lib_call lib (Call ''map.setView''),
                 modify (\<lambda>s'. s'\<lparr>lw_map := Some (length (trace s))\<rparr>)] s)) = trace s @ tr"
        by (rule keeps_block [where R = "\<lambda>s s'. \<exists>tr. trace s' = trace s @ tr"])
          (auto simp: lib_call_def modify_def reflp_def transp_def)
      with 1 show ?thesis by simp
    qed (auto simp: lib_call_def modify_def)
  qed (auto simp: reflp_def transp_def)
  from grows [of ?s1] obtain tr where "trace (snd (?rest ?s1)) = trace s @ (Map_remove h, True) # tr"
    by auto
  moreover have "lw_createMap lib elementId lat lng zoom s = ?rest ?s1"
    using assms False by (simp add: lw_createMap_def seq_def lib_call_def)
  ultimately show ?thesis by auto
qed

lemma lw_createMap_twice_releases:
  "live_maps (snd (lw_createMap no_faults ''map-a'' (-15.4) 28.3 12 lw_init)) = [0]
   \<and> live_maps (snd (lw_createMap no_faults ''map-b'' (-15.4) 28.3 12
          (snd (lw_createMap no_faults ''map-a'' (-15.4) 28.3 12 lw_init)))) = [7]
   \<and> lw_map (snd (lw_createMap no_faults ''map-b'' (-15.4) 28.3 12
          (snd (lw_createMap no_faults ''map-a'' (-15.4) 28.3 12 lw_init)))) = Some 7"
  by (simp add: lw_createMap_def lw_init_def no_faults_def live_maps_def js_defs)

lemma gis_createMap_twice_releases:
  "live_maps (snd (gis_createMap no_faults ''map-b'' (-15.4) 28.3 12
          (snd (gis_createMap no_faults ''map-a'' (-15.4) 28.3 12 gis_init)))) = [5]
   \<and> gis_map (snd (gis_createMap no_faults ''map-b'' (-15.4) 28.3 12
          (snd (gis_createMap no_faults ''map-a'' (-15.4) 28.3 12 gis_init)))) = Some 5"
  by (simp add: gis_createMap_def gis_init_def no_faults_def live_maps_def js_defs)

lemma initializeLeafletMap_twice_releases:
  "live_maps (snd (sd_invoke no_faults True (InitializeLeafletMap ''map-b'' (-15.4) 28.3 12)
          (snd (sd_invoke no_faults True (InitializeLeafletMap ''map-a'' (-15.4) 28.3 12) sd_init)))) = [5]
   \<and> sd_spatialMap (snd (sd_invoke no_faults True (InitializeLeafletMap ''map-b'' (-15.4) 28.3 12)
          (snd (sd_invoke no_faults True (InitializeLeafletMap ''map-a'' (-15.4) 28.3 12) sd_init)))) = Some 5"
  by (simp add: sd_invoke_def initializeLeafletMap_try_def sd_init_def no_faults_def live_maps_def js_defs)

lemma dispose_releases:
  "live_maps (snd (lm_disposeMap no_faults (snd (lm_initializeMap no_faults ''map-a'' (-15.4) 28.3 12 lm_init)))) = []
   \<and> lm_map (snd (lm_disposeMap no_faults (snd (lm_initializeMap no_faults ''map-a'' (-15.4) 28.3 12 lm_init)))) = None
   \<and> live_maps (snd (sd_invoke no_faults True DestroyLeafletMap
        (snd (sd_invoke no_faults True (InitializeLeafletMap ''map-a'' (-15.4) 28.3 12) sd_init)))) = []
   \<and> sd_spatialMap (snd (sd_invoke no_faults True DestroyLeafletMap
        (snd (sd_invoke no_faults True (InitializeLeafletMap ''map-a'' (-15.4) 28.3 12) sd_init)))) = None"
  by (simp add: lm_disposeMap_def lm_clearAll_def lm_clearMarkers_def lm_clearParcels_def
      lm_clearChiefdomBoundaries_def removeLayer_each_def lm_initializeMap_def lm_init_def
      sd_invoke_def initializeLeafletMap_try_def destroyLeafletMap_try_def sd_init_def
      no_faults_def live_maps_def js_defs)

section \<open>Theorems: the GIS wrapper's registry\<close>

lemma gis_fields_trace [simp]:
  "gis_map (s\<lparr>trace := tr\<rparr>) = gis_map s"
  "gis_layers (s\<lparr>trace := tr\<rparr>) = gis_layers s"
  "gis_markers (s\<lparr>trace := tr\<rparr>) = gis_markers s"
  by simp_all

lemma gis_grows_order: "reflp gis_grows" "transp gis_grows"
  by (auto simp: gis_grows_def reflp_def transp_def)

lemma gis_createMap_grows: "gis_grows s (snd (gis_createMap lib elementId lat lng zoom s))"
  unfolding gis_createMap_def
proof (rule keeps_block [OF _ gis_grows_order])
  fix m :: "gis_state \<Rightarrow> (exn + jsval) \<times> gis_state" and s :: gis_state
  assume "m \<in> set
     [\<lambda>s. case gis_map s of None \<Rightarrow> returns JUndefined s | Some h \<Rightarrow> lib_call lib (Map_remove h) s,
      \<lambda>s. block [lib_call lib (L_map elementId), lib_call lib (Call ''map.setView''),
             modify (\<lambda>s'. s'\<lparr>gis_map := Some (length (trace s))\<rparr>)] s,
      \<lambda>s. block [lib_call lib (Call ''L.tileLayer''), lib_call lib (Call ''tileLayer.addTo''),
             modify (\<lambda>s'. s'\<lparr>gis_currentBaseLayer := Some (length (trace s))\<rparr>)] s,
      \<lambda>s. returns (case gis_map s of None \<Rightarrow> JNull | Some h \<Rightarrow> JRef h) s]"
  then consider
      "m = (\<lambda>s. case gis_map s of None \<Rightarrow> returns JUndefined s | Some h \<Rightarrow> lib_call lib (Map_remove h) s)"
    | "m = (\<lambda>s. block [lib_call lib (L_map elementId), lib_call lib (Call ''map.setView''),
             modify (\<lambda>s'. s'\<lparr>gis_map := Some (length (trace s))\<rparr>)] s)"
    | "m = (\<lambda>s. block [lib_call lib (Call ''L.tileLayer''), lib_call lib (Call ''tileLayer.addTo''),
             modify (\<lambda>s'. s'\<lparr>gis_currentBaseLayer := Some (length (trace s))\<rparr>)] s)"
    | "m = (\<lambda>s. returns (case gis_map s of None \<Rightarrow> JNull | Some h \<Rightarrow> JRef h) s)"
    by auto
  then show "gis_grows s (snd (m s))"
  proof cases
    case 1
    then show ?thesis by (simp add: gis_grows_def returns_def lib_call_def split: option.splits)
  next
    case 2
    have "gis_grows s (snd (block [lib_call lib (L_map elementId), lib_call lib (Call ''map.setView''),
             modify (\<lambda>s'. s'\<lparr>gis_map := Some (length (trace s))\<rparr>)] s))"
      by (rule keeps_block [OF _ gis_grows_order])
        (auto simp: gis_grows_def lib_call_def modify_def)
    with 2 show ?thesis by simp
  next
    case 3
    have "gis_grows s (snd (block [lib_call lib (Call ''L.tileLayer''), lib_call lib (Call ''tileLayer.addTo''),
             modify (\<lambda>s'. s'\<lparr>gis_currentBaseLayer := Some (length (trace s))\<rparr>)] s))"
      by (rule keeps_block [OF _ gis_grows_order])
        (auto simp: gis_grows_def lib_call_def modify_def)
    with 3 show ?thesis by simp
  next
    case 4
    then show ?thesis by (simp add: gis_grows_def returns_def)
  qed
qed

lemma gis_createMap_inv: "gis_inv s \<Longrightarrow> gis_inv (snd (gis_createMap lib elementId lat lng zoom s))"
  using gis_createMap_grows [of s lib elementId lat lng zoom]
  by (auto simp: gis_inv_def gis_grows_def)

lemma gis_map_block:
  assumes "\<And>m s. m \<in> set ms \<Longrightarrow> gis_map (snd (m s)) = gis_map s"
  shows "gis_map (snd (block ms s)) = gis_map s"
  using keeps_block [where R = "\<lambda>s s'. gis_map s' = gis_map s" and ms = ms and s = s] assms
  by (simp add: reflp_def transp_def)

lemma gis_map_try_catch:
  assumes "\<And>s. gis_map (snd (m s)) = gis_map s" and "\<And>e s. gis_map (snd (h e s)) = gis_map s"
  shows "gis_map (snd (try_catch m h s)) = gis_map s"
  using keeps_try_catch [where R = "\<lambda>s s'. gis_map s' = gis_map s" and m = m and h = h and s = s] assms
  by (simp add: transp_def)

lemma gis_map_step [simp]:
  "gis_map (snd (lib_call lib c s)) = gis_map s"
  "gis_map (snd (returns v s)) = gis_map s"
  "gis_map (snd (throws e s)) = gis_map s"
  "gis_map (snd (console_write msg s)) = gis_map s"
  "gis_map (snd (js_when b (lib_call lib c) s)) = gis_map s"
  by (simp_all add: js_defs)

lemma gis_add_map:
  "gis_map (snd (gis_addMarker lib now lat lng popupText s)) = gis_map s"
  "gis_map (snd (gis_addCircle lib now lat lng radius s)) = gis_map s"
  "gis_map (snd (gis_addPolygon lib now latLngs s)) = gis_map s"
  "gis_map (snd (gis_addGeoJson lib now geoJson s)) = gis_map s"
  by (auto simp: gis_addMarker_def gis_addCircle_def gis_addPolygon_def gis_addGeoJson_def modify_def
      simp del: block.simps intro!: gis_map_block)

lemma gis_addLayer_map: "gis_map (snd (gis_addLayer lib prs layerId layerData s)) = gis_map s"
proof (cases "gis_map s = None")
  case True
  then show ?thesis by (simp add: gis_addLayer_def)
next
  case False
  have "gis_map (snd (try_catch
        (case prs layerData of
           None \<Rightarrow> throws (TypeError ''JSON.parse'')
         | Some data \<Rightarrow>
             block [lib_call lib (Call ''L.geoJSON''), lib_call lib (Call ''layer.addTo''),
                 modify (\<lambda>s'. s'\<lparr>gis_layers := AList.update layerId (GeoJSON data) (gis_layers s')\<rparr>)])
        (\<lambda>e. console_write ''Error adding layer:'') s)) = gis_map s"
  proof (rule gis_map_try_catch)
    fix s :: gis_state
    show "gis_map (snd ((case prs layerData of
           None \<Rightarrow> throws (TypeError ''JSON.parse'')
         | Some data \<Rightarrow>
             block [lib_call lib (Call ''L.geoJSON''), lib_call lib (Call ''layer.addTo''),
                 modify (\<lambda>s'. s'\<lparr>gis_layers := AList.update layerId (GeoJSON data) (gis_layers s')\<rparr>)]) s))
        = gis_map s"
      by (cases "prs layerData") (auto simp: modify_def simp del: block.simps intro!: gis_map_block)
  qed simp
  with False show ?thesis by (simp add: gis_addLayer_def)
qed

lemma gis_inv_guarded:
  assumes "gis_inv s" and "gis_map s' = gis_map s" and "gis_map s = None \<Longrightarrow> s' = s"
  shows "gis_inv s'"
  using assms by (cases "gis_map s = None") (auto simp: gis_inv_def)

lemma gis_add_inv:
  assumes "gis_inv s"
  shows "gis_inv (snd (gis_addMarker lib now lat lng popupText s))"
    and "gis_inv (snd (gis_addCircle lib now lat lng radius s))"
    and "gis_inv (snd (gis_addPolygon lib now latLngs s))"
    and "gis_inv (snd (gis_addGeoJson lib now geoJson s))"
    and "gis_inv (snd (gis_addLayer lib prs layerId layerData s))"
  by (rule gis_inv_guarded [OF assms], simp add: gis_add_map gis_addLayer_map,
      simp add: gis_addMarker_def gis_addCircle_def gis_addPolygon_def gis_addGeoJson_def
        gis_addLayer_def returns_def)+

lemma gis_removeLayer_inv: "gis_inv s \<Longrightarrow> gis_inv (snd (gis_removeLayer lib layerId s))"
proof (cases "gis_map s")
  case None
  assume "gis_inv s"
  with None show ?thesis by (simp add: gis_inv_def gis_removeLayer_def returns_def)
next
  case (Some h)
  obtain tr where "snd (removeLayer_each lib (gis_map s) [the (map_of (gis_layers s) layerId)] s) = s\<lparr>trace := tr\<rparr>"
    using removeLayer_each_state by blast
  with Some show ?thesis
    by (auto simp: gis_inv_def gis_removeLayer_def js_defs split: option.splits prod.splits sum.splits)
qed

lemma gis_clearMap_layers:
  "gis_map s \<noteq> None \<Longrightarrow> fst (gis_clearMap lib s) = Inr v \<Longrightarrow> gis_layers (snd (gis_clearMap lib s)) = []"
proof -
  assume m: "gis_map s \<noteq> None" and r: "fst (gis_clearMap lib s) = Inr v"
  obtain tr where a: "snd (removeLayer_each lib (gis_map s) (gis_layers s) s) = s\<lparr>trace := tr\<rparr>"
    using removeLayer_each_state by blast
  obtain tr' where b: "snd (removeLayer_each lib (gis_map s) (gis_markers s) (s\<lparr>trace := tr, gis_layers := []\<rparr>))
      = s\<lparr>trace := tr, gis_layers := [], trace := tr'\<rparr>"
    using removeLayer_each_state by blast
  from m r a b show ?thesis
    by (auto simp: gis_clearMap_def js_defs split: option.splits prod.splits sum.splits)
qed

lemma gis_clearMap_inv: "gis_inv s \<Longrightarrow> gis_inv (snd (gis_clearMap lib s))"
proof (cases "gis_map s")
  case None
  assume "gis_inv s"
  with None show ?thesis by (simp add: gis_clearMap_def returns_def)
next
  case (Some h)
  obtain tr where a: "snd (removeLayer_each lib (gis_map s) (gis_layers s) s) = s\<lparr>trace := tr\<rparr>"
    using removeLayer_each_state by blast
  obtain tr' where b: "snd (removeLayer_each lib (gis_map s) (gis_markers s) (s\<lparr>trace := tr, gis_layers := []\<rparr>))
      = s\<lparr>trace := tr, gis_layers := [], trace := tr'\<rparr>"
    using removeLayer_each_state by blast
  from Some a b show ?thesis
    by (auto simp: gis_inv_def gis_clearMap_def js_defs split: option.splits prod.splits sum.splits)
qed

lemma gis_reachable_inv: "gis_reachable s \<Longrightarrow> gis_inv s"
proof (induction rule: gis_reachable.induct)
  case start
  show ?case by (simp add: gis_inv_def gis_init_def)
next
  case (call s lib prs c)
  then show ?case
    by (cases c) (simp_all add: gis_createMap_inv gis_add_inv gis_removeLayer_inv gis_clearMap_inv)
next
  case (other s s')
  then show ?case by (simp add: gis_inv_def)
qed

text \<open>
  Claim C9. In every state the GIS wrapper can reach, \<open>clearMap\<close> followed by
  \<open>exportToGeoJson\<close> with no layer identifier gives the serialised feature collection
  with no features. \<open>clearMap\<close> returns whenever \<^verbatim>\<open>map.removeLayer\<close> does not throw.
\<close>

theorem clearMap_then_export_empty:
  assumes "gis_reachable s"
  shows "(fst (gis_clearMap lib s) = Inr JUndefined \<longrightarrow>
            gis_exportToGeoJson None (snd (gis_clearMap lib s)) = JSON_stringify (FeatureCollection []))
         \<and> ((\<forall>n. \<not> lib n (Call ''map.removeLayer'')) \<longrightarrow> fst (gis_clearMap lib s) = Inr JUndefined)"
proof (cases "gis_map s")
  case None
  with gis_reachable_inv [OF assms] show ?thesis
    by (simp add: gis_inv_def gis_clearMap_def returns_def gis_exportToGeoJson_def)
next
  case (Some h)
  have 1: "fst (gis_clearMap lib s) = Inr JUndefined \<longrightarrow>
            gis_exportToGeoJson None (snd (gis_clearMap lib s)) = JSON_stringify (FeatureCollection [])"
    using gis_clearMap_layers [of s lib JUndefined] Some
    by (simp add: gis_exportToGeoJson_def)
  have 2: "fst (gis_clearMap lib s) = Inr JUndefined" if q: "\<forall>n. \<not> lib n (Call ''map.removeLayer'')"
  proof -
    obtain v where a: "fst (removeLayer_each lib (gis_map s) (gis_layers s) s) = Inr v"
      using removeLayer_each_returns [of lib "gis_layers s" "gis_map s" s] q Some by auto
    obtain tr where a': "snd (removeLayer_each lib (gis_map s) (gis_layers s) s) = s\<lparr>trace := tr\<rparr>"
      using removeLayer_each_state by blast
    obtain v' where b: "fst (removeLayer_each lib (gis_map s) (gis_markers s) (s\<lparr>trace := tr, gis_layers := []\<rparr>)) = Inr v'"
      using removeLayer_each_returns [of lib "gis_markers s" "gis_map s" "s\<lparr>trace := tr, gis_layers := []\<rparr>"] q Some
      by auto
    from Some a a' b show ?thesis
      by (auto simp: gis_clearMap_def js_defs split: option.splits prod.splits sum.splits)
  qed
  from 1 2 show ?thesis by blast
qed

theorem clearMap_then_export_empty_witness:
  "gis_layers (snd (gis_addCircle no_faults 42 (-15.4) 28.3 500
      (snd (gis_createMap no_faults ''map'' (-15.4) 28.3 12 gis_init))))
     = [(''circle_42'', Circle (-15.4, 28.3) 500)]
   \<and> fst (gis_clearMap no_faults (snd (gis_addCircle no_faults 42 (-15.4) 28.3 500
      (snd (gis_createMap no_faults ''map'' (-15.4) 28.3 12 gis_init))))) = Inr JUndefined
   \<and> gis_exportToGeoJson None (snd (gis_clearMap no_faults (snd (gis_addCircle no_faults 42 (-15.4) 28.3 500
      (snd (gis_createMap no_faults ''map'' (-15.4) 28.3 12 gis_init))))))
     = JSON_stringify (FeatureCollection [])"
proof -
  let ?s1 = "snd (gis_invoke no_faults (\<lambda>_. None) (CreateMap ''map'' (-15.4) 28.3 12) gis_init)"
  let ?s2 = "snd (gis_invoke no_faults (\<lambda>_. None) (AddCircle 42 (-15.4) 28.3 500) ?s1)"
  have "gis_reachable ?s1"
    by (rule gis_reachable.call [OF gis_reachable.start])
  then have r: "gis_reachable ?s2"
    by (rule gis_reachable.call)
  have l: "gis_layers ?s2 = [(''circle_42'', Circle (-15.4, 28.3) 500)]"
    by (simp add: gis_createMap_def gis_addCircle_def gis_init_def no_faults_def js_defs decimal.simps)
  from clearMap_then_export_empty [OF r, of no_faults] l show ?thesis
    by (simp add: no_faults_def)
qed

section \<open>Theorems: the dashboard wrapper returns a boolean\<close>

lemma sd_try_value:
  assumes "fst (sd_try lib plugin c s) = Inr v"
  shows "v = JBool True
     \<or> v = JBool False \<and> (sd_guarded c \<and> sd_spatialMap s = None
                         \<or> (\<exists>options. c = AddLeafletHeatmap options) \<and> \<not> plugin)"
proof (cases c)
  case (InitializeLeafletMap mapId centerLat centerLng zoom)
  with assms show ?thesis
    by (auto simp: initializeLeafletMap_try_def returns_def elim!: seq_valueE)
next
  case (AddLeafletMarker lat lng title iconColor)
  with assms show ?thesis
    by (auto simp: addLeafletMarker_try_def returns_def
        split: if_splits elim!: seq_valueE)
next
  case (AddLeafletPolygon paths)
  with assms show ?thesis
    by (auto simp: addLeafletPolygon_try_def returns_def throws_def
        split: if_splits option.splits elim!: seq_valueE)
next
  case (AddLeafletCircle lat lng radius color title)
  with assms show ?thesis
    by (auto simp: addLeafletCircle_try_def returns_def
        split: if_splits elim!: seq_valueE)
next
  case ClearLeafletMarkers
  with assms show ?thesis
    by (auto simp: clearLeafletMarkers_try_def returns_def elim!: seq_valueE)
next
  case ClearLeafletPolygons
  with assms show ?thesis
    by (auto simp: clearLeafletPolygons_try_def returns_def elim!: seq_valueE)
next
  case (FitMapToBounds bounds)
  with assms show ?thesis
    by (auto simp: fitMapToBounds_try_def returns_def
        split: if_splits elim!: seq_valueE)
next
  case (SetMapView lat lng zoom)
  with assms show ?thesis
    by (auto simp: setMapView_try_def returns_def
        split: if_splits elim!: seq_valueE)
next
  case DestroyLeafletMap
  with assms show ?thesis
    by (auto simp: destroyLeafletMap_try_def returns_def elim!: seq_valueE)
next
  case (AddLeafletHeatmap options)
  with assms show ?thesis
    by (auto simp: addLeafletHeatmap_try_def returns_def throws_def
        split: if_splits option.splits elim!: seq_valueE)
qed

lemma sd_inv_page [simp]:
  "sd_inv (s\<lparr>trace := tr\<rparr>) = sd_inv s"
  "sd_inv (s\<lparr>console := msgs\<rparr>) = sd_inv s"
  by (simp_all add: sd_inv_def)

lemma sd_inv_step [simp]:
  "sd_inv (snd (lib_call lib c s)) = sd_inv s"
  "sd_inv (snd (returns v s)) = sd_inv s"
  "sd_inv (snd (throws e s)) = sd_inv s"
  "sd_inv (snd (console_write msg s)) = sd_inv s"
  "sd_inv (snd (js_when b (lib_call lib c) s)) = sd_inv s"
  by (simp_all add: js_defs)

lemma sd_inv_removeLayer_each [simp]:
  "sd_inv (snd (removeLayer_each lib m xs s)) = sd_inv s"
proof -
  obtain tr where "snd (removeLayer_each lib m xs s) = s\<lparr>trace := tr\<rparr>"
    using removeLayer_each_state by blast
  then show ?thesis by simp
qed

lemma sd_inv_block:
  assumes "\<And>m s. m \<in> set ms \<Longrightarrow> sd_inv s \<Longrightarrow> sd_inv (snd (m s))" and "sd_inv s"
  shows "sd_inv (snd (block ms s))"
  using keeps_block [where R = "\<lambda>s s'. sd_inv s \<longrightarrow> sd_inv s'" and ms = ms and s = s] assms
  by (simp add: reflp_def transp_def)

lemma sd_inv_try_catch:
  assumes "\<And>s. sd_inv s \<Longrightarrow> sd_inv (snd (m s))" and "\<And>e s. sd_inv s \<Longrightarrow> sd_inv (snd (h e s))"
    and "sd_inv s"
  shows "sd_inv (snd (try_catch m h s))"
  using keeps_try_catch [where R = "\<lambda>s s'. sd_inv s \<longrightarrow> sd_inv s'" and m = m and h = h and s = s] assms
  by (simp add: transp_def)

lemma sd_map_block:
  assumes "\<And>m s. m \<in> set ms \<Longrightarrow> sd_spatialMap (snd (m s)) = sd_spatialMap s"
  shows "sd_spatialMap (snd (block ms s)) = sd_spatialMap s"
  using keeps_block [where R = "\<lambda>s s'. sd_spatialMap s' = sd_spatialMap s" and ms = ms and s = s] assms
  by (simp add: reflp_def transp_def)

lemma sd_map_step [simp]:
  "sd_spatialMap (snd (lib_call lib c s)) = sd_spatialMap s"
  "sd_spatialMap (snd (returns v s)) = sd_spatialMap s"
  "sd_spatialMap (snd (throws e s)) = sd_spatialMap s"
  "sd_spatialMap (snd (console_write msg s)) = sd_spatialMap s"
  "sd_spatialMap (snd (js_when b (lib_call lib c) s)) = sd_spatialMap s"
  by (simp_all add: js_defs)

lemma sd_inv_same_map:
  assumes "sd_spatialMap s' = sd_spatialMap s" and "sd_spatialMap s \<noteq> None"
  shows "sd_inv s'"
  using assms by (auto simp: sd_inv_def)

lemma sd_try_inv:
  assumes "sd_inv s"
  shows "sd_inv (snd (sd_try lib plugin c s))"
proof (cases c)
  case (InitializeLeafletMap mapId centerLat centerLng zoom)
  have "sd_inv (snd (initializeLeafletMap_try lib mapId centerLat centerLng zoom s))"
    unfolding initializeLeafletMap_try_def
  proof (rule sd_inv_block [OF _ assms])
    fix m :: "sd_state \<Rightarrow> (exn + jsval) \<times> sd_state" and s :: sd_state
    assume i: "sd_inv s"
    assume "m \<in> set
      [\<lambda>s. case sd_spatialMap s of None \<Rightarrow> returns JUndefined s
           | Some h \<Rightarrow> block [lib_call lib (Map_remove h),
                              modify (\<lambda>s'. s'\<lparr>sd_markers := [], sd_polygons := []\<rparr>)] s,
       \<lambda>s. block [lib_call lib (L_map mapId), lib_call lib (Call ''map.setView''),
                  modify (\<lambda>s'. s'\<lparr>sd_spatialMap := Some (length (trace s))\<rparr>)] s,
       lib_call lib (Call ''L.tileLayer''), lib_call lib (Call ''tileLayer.addTo''),
       console_write ''Leaflet map initialized successfully'', returns (JBool True)]"
    then consider
        "m = (\<lambda>s. case sd_spatialMap s of None \<Rightarrow> returns JUndefined s
           | Some h \<Rightarrow> block [lib_call lib (Map_remove h),
                              modify (\<lambda>s'. s'\<lparr>sd_markers := [], sd_polygons := []\<rparr>)] s)"
      | "m = (\<lambda>s. block [lib_call lib (L_map mapId), lib_call lib (Call ''map.setView''),
                  modify (\<lambda>s'. s'\<lparr>sd_spatialMap := Some (length (trace s))\<rparr>)] s)"
      | "m = lib_call lib (Call ''L.tileLayer'')" | "m = lib_call lib (Call ''tileLayer.addTo'')"
      | "m = console_write ''Leaflet map initialized successfully''" | "m = returns (JBool True)"
      by auto
    then show "sd_inv (snd (m s))"
    proof cases
      case 1
      have "sd_inv (snd (block [lib_call lib (Map_remove h),
                modify (\<lambda>s'. s'\<lparr>sd_markers := [], sd_polygons := []\<rparr>)] s))" for h
        by (rule sd_inv_block [OF _ i]) (auto simp: modify_def, simp_all add: sd_inv_def)
      with 1 i show ?thesis by (simp split: option.splits)
    next
      case 2
      have "sd_inv (snd (block [lib_call lib (L_map mapId), lib_call lib (Call ''map.setView''),
                  modify (\<lambda>s'. s'\<lparr>sd_spatialMap := Some (length (trace s))\<rparr>)] s))"
        by (rule sd_inv_block [OF _ i]) (auto simp: modify_def, simp_all add: sd_inv_def)
      with 2 show ?thesis by simp
    qed (use i in simp_all)
  qed
  with InitializeLeafletMap show ?thesis by simp
next
  case (AddLeafletMarker lat lng title iconColor)
  show ?thesis
  proof (cases "sd_spatialMap s = None")
    case True
    with assms AddLeafletMarker show ?thesis
      by (simp add: addLeafletMarker_try_def js_defs)
  next
    case False
    have "sd_spatialMap (snd (addLeafletMarker_try lib lat lng title iconColor s)) = sd_spatialMap s"
      using False unfolding addLeafletMarker_try_def
      by (auto simp: modify_def simp del: block.simps intro!: sd_map_block)
    with False AddLeafletMarker show ?thesis by (simp add: sd_inv_same_map)
  qed
next
  case (AddLeafletPolygon paths)
  show ?thesis
  proof (cases "sd_spatialMap s = None")
    case True
    with assms AddLeafletPolygon show ?thesis
      by (simp add: addLeafletPolygon_try_def js_defs)
  next
    case False
    have "sd_spatialMap (snd (addLeafletPolygon_try lib paths s)) = sd_spatialMap s"
      using False unfolding addLeafletPolygon_try_def
      by (cases paths) (auto simp: modify_def simp del: block.simps intro!: sd_map_block)
    with False AddLeafletPolygon show ?thesis by (simp add: sd_inv_same_map)
  qed
next
  case (AddLeafletCircle lat lng radius color title)
  show ?thesis
  proof (cases "sd_spatialMap s = None")
    case True
    with assms AddLeafletCircle show ?thesis
      by (simp add: addLeafletCircle_try_def js_defs)
  next
    case False
    have "sd_spatialMap (snd (addLeafletCircle_try lib lat lng radius color title s)) = sd_spatialMap s"
      using False unfolding addLeafletCircle_try_def
      by (auto simp del: block.simps intro!: sd_map_block)
    with False AddLeafletCircle show ?thesis by (simp add: sd_inv_same_map)
  qed
next
  case ClearLeafletMarkers
  have "sd_inv (snd (clearLeafletMarkers_try lib s))"
    unfolding clearLeafletMarkers_try_def
    by (rule sd_inv_block [OF _ assms]) (auto simp: modify_def, simp_all add: sd_inv_def)
  with ClearLeafletMarkers show ?thesis by simp
next
  case ClearLeafletPolygons
  have "sd_inv (snd (clearLeafletPolygons_try lib s))"
    unfolding clearLeafletPolygons_try_def
    by (rule sd_inv_block [OF _ assms]) (auto simp: modify_def, simp_all add: sd_inv_def)
  with ClearLeafletPolygons show ?thesis by simp
next
  case (FitMapToBounds bounds)
  have "sd_inv (snd (fitMapToBounds_try lib bounds s))"
    using assms unfolding fitMapToBounds_try_def
    by (auto simp del: block.simps intro!: sd_inv_block)
  with FitMapToBounds show ?thesis by simp
next
  case (SetMapView lat lng zoom)
  have "sd_inv (snd (setMapView_try lib lat lng zoom s))"
    using assms unfolding setMapView_try_def
    by (auto simp del: block.simps intro!: sd_inv_block)
  with SetMapView show ?thesis by simp
next
  case DestroyLeafletMap
  have "sd_inv (snd (destroyLeafletMap_try lib s))"
    unfolding destroyLeafletMap_try_def
  proof (rule sd_inv_block [OF _ assms])
    fix m :: "sd_state \<Rightarrow> (exn + jsval) \<times> sd_state" and s :: sd_state
    assume i: "sd_inv s"
    assume "m \<in> set
      [\<lambda>s. case sd_spatialMap s of None \<Rightarrow> returns JUndefined s
           | Some h \<Rightarrow> block [lib_call lib (Map_remove h),
                modify (\<lambda>s'. s'\<lparr>sd_spatialMap := None, sd_markers := [], sd_polygons := []\<rparr>)] s,
       returns (JBool True)]"
    then consider
        "m = (\<lambda>s. case sd_spatialMap s of None \<Rightarrow> returns JUndefined s
           | Some h \<Rightarrow> block [lib_call lib (Map_remove h),
                modify (\<lambda>s'. s'\<lparr>sd_spatialMap := None, sd_markers := [], sd_polygons := []\<rparr>)] s)"
      | "m = returns (JBool True)"
      by auto
    then show "sd_inv (snd (m s))"
    proof cases
      case 1
      have "sd_inv (snd (block [lib_call lib (Map_remove h),
                modify (\<lambda>s'. s'\<lparr>sd_spatialMap := None, sd_markers := [], sd_polygons := []\<rparr>)] s))" for h
        by (rule sd_inv_block [OF _ i]) (auto simp: modify_def, simp_all add: sd_inv_def)
      with 1 i show ?thesis by (simp split: option.splits)
    qed (use i in simp)
  qed
  with DestroyLeafletMap show ?thesis by simp
next
  case (AddLeafletHeatmap options)
  have "sd_inv (snd (addLeafletHeatmap_try lib plugin options s))"
    using assms unfolding addLeafletHeatmap_try_def
    by (cases options) (auto simp del: block.simps intro!: sd_inv_block)
  with AddLeafletHeatmap show ?thesis by simp
qed

lemma sd_invoke_inv: "sd_inv s \<Longrightarrow> sd_inv (snd (sd_invoke lib plugin c s))"
  unfolding sd_invoke_def
  by (rule sd_inv_try_catch) (auto simp: sd_try_inv sd_failed_def simp del: block.simps intro!: sd_inv_block)

lemma sd_reachable_inv: "sd_reachable s \<Longrightarrow> sd_inv s"
  by (induction rule: sd_reachable.induct) (simp_all add: sd_inv_def sd_init_def sd_invoke_inv [unfolded sd_inv_def])

lemma sd_failed_value: "fst (sd_failed msg e s) = Inr (JBool False)"
  by (simp add: sd_failed_def js_defs)

lemma sd_guarded_uninitialised:
  assumes "sd_guarded c" and "sd_spatialMap s = None"
  shows "sd_try lib plugin c s = (Inr (JBool False), s\<lparr>console := console s @ [''Map not initialized'']\<rparr>)"
  using assms
  by (cases c)
    (simp_all add: addLeafletMarker_try_def addLeafletPolygon_try_def addLeafletCircle_try_def
      fitMapToBounds_try_def setMapView_try_def addLeafletHeatmap_try_def js_defs)

lemma sd_nothing_to_do:
  assumes "sd_spatialMap s = None" and "sd_markers s = []" and "sd_polygons s = []"
  shows "clearLeafletMarkers_try lib s = (Inr (JBool True), s)"
    and "clearLeafletPolygons_try lib s = (Inr (JBool True), s)"
    and "destroyLeafletMap_try lib s = (Inr (JBool True), s)"
  using assms
  by (simp_all add: clearLeafletMarkers_try_def clearLeafletPolygons_try_def
      destroyLeafletMap_try_def removeLayer_each_def js_defs)

text \<open>
  Claim C10, as amended. Every exported function of the dashboard wrapper returns a
  boolean and never throws. The result is \<^verbatim>\<open>false\<close> when an error is caught, and when
  the map is uninitialised for the functions that test the handle (\<open>addLeafletMarker\<close>,
  \<open>addLeafletPolygon\<close>, \<open>addLeafletCircle\<close>, \<open>fitMapToBounds\<close>, \<open>setMapView\<close>,
  \<open>addLeafletHeatmap\<close>). \<open>clearLeafletMarkers\<close>, \<open>clearLeafletPolygons\<close> and
  \<open>destroyLeafletMap\<close> do not test it: with the map uninitialised they change nothing
  and return \<^verbatim>\<open>true\<close>. The only other \<^verbatim>\<open>false\<close> is \<open>addLeafletHeatmap\<close> without
  the heat plugin; every other call returns \<^verbatim>\<open>true\<close>.
\<close>

theorem sd_invoke_boolean:
  "(\<exists>b. fst (sd_invoke lib plugin c s) = Inr (JBool b))
   \<and> (fst (sd_try lib plugin c s) = Inl e \<longrightarrow> fst (sd_invoke lib plugin c s) = Inr (JBool False))
   \<and> (sd_guarded c \<and> sd_spatialMap s = None \<longrightarrow> fst (sd_invoke lib plugin c s) = Inr (JBool False))
   \<and> (sd_reachable s \<and> sd_spatialMap s = None
        \<and> c \<in> {ClearLeafletMarkers, ClearLeafletPolygons, DestroyLeafletMap} \<longrightarrow>
        sd_invoke lib plugin c s = (Inr (JBool True), s))
   \<and> (fst (sd_invoke lib plugin c s) = Inr (JBool False) \<longrightarrow>
        (\<exists>e. fst (sd_try lib plugin c s) = Inl e) \<or> sd_guarded c \<and> sd_spatialMap s = None
        \<or> (\<exists>options. c = AddLeafletHeatmap options) \<and> \<not> plugin)"
proof -
  obtain r s' where t: "sd_try lib plugin c s = (r, s')"
    by (cases "sd_try lib plugin c s")
  have thrown: "fst (sd_invoke lib plugin c s) = Inr (JBool False)" if "r = Inl x" for x
    using that t by (simp add: sd_invoke_def try_catch_def sd_failed_value)
  have returned: "sd_invoke lib plugin c s = (Inr v, s')" if "r = Inr v" for v
    using that t by (simp add: sd_invoke_def try_catch_def)
  have val: "v = JBool True
     \<or> v = JBool False \<and> (sd_guarded c \<and> sd_spatialMap s = None
                         \<or> (\<exists>options. c = AddLeafletHeatmap options) \<and> \<not> plugin)" if "r = Inr v" for v
    using sd_try_value [of lib plugin c s v] that t by simp
  have 1: "\<exists>b. fst (sd_invoke lib plugin c s) = Inr (JBool b)"
  proof (cases r)
    case (Inl x)
    with thrown show ?thesis by blast
  next
    case (Inr v)
    with returned [OF Inr] val [OF Inr] show ?thesis by auto
  qed
  have 2: "fst (sd_try lib plugin c s) = Inl e \<longrightarrow> fst (sd_invoke lib plugin c s) = Inr (JBool False)"
    using thrown t by simp
  have 3: "sd_guarded c \<and> sd_spatialMap s = None \<longrightarrow> fst (sd_invoke lib plugin c s) = Inr (JBool False)"
    using sd_guarded_uninitialised [of c s lib plugin]
    by (auto simp: sd_invoke_def try_catch_def)
  have 4: "sd_reachable s \<and> sd_spatialMap s = None
        \<and> c \<in> {ClearLeafletMarkers, ClearLeafletPolygons, DestroyLeafletMap} \<longrightarrow>
        sd_invoke lib plugin c s = (Inr (JBool True), s)"
  proof (intro impI, elim conjE)
    assume r: "sd_reachable s" and n: "sd_spatialMap s = None"
      and c: "c \<in> {ClearLeafletMarkers, ClearLeafletPolygons, DestroyLeafletMap}"
    from sd_reachable_inv [OF r] n have e: "sd_markers s = []" "sd_polygons s = []"
      by (simp_all add: sd_inv_def)
    from c sd_nothing_to_do [OF n e, of lib] show "sd_invoke lib plugin c s = (Inr (JBool True), s)"
      by (auto simp: sd_invoke_def try_catch_def)
  qed
  have 5: "fst (sd_invoke lib plugin c s) = Inr (JBool False) \<longrightarrow>
        (\<exists>e. fst (sd_try lib plugin c s) = Inl e) \<or> sd_guarded c \<and> sd_spatialMap s = None
        \<or> (\<exists>options. c = AddLeafletHeatmap options) \<and> \<not> plugin"
  proof (cases r)
    case (Inl x)
    with t show ?thesis by simp
  next
    case (Inr v)
    with returned [OF Inr] val [OF Inr] show ?thesis by auto
  qed
  from 1 2 3 4 5 show ?thesis by blast
qed

theorem sd_invoke_boolean_witness:
  "fst (sd_invoke no_faults True (AddLeafletMarker (-15.4) 28.3 ''Clinic'' ''red'') sd_init) = Inr (JBool False)
   \<and> fst (sd_invoke (\<lambda>n c. c = L_map ''missing'') True (InitializeLeafletMap ''missing'' (-15.4) 28.3 12) sd_init)
       = Inr (JBool False)
   \<and> sd_invoke no_faults True ClearLeafletMarkers sd_init = (Inr (JBool True), sd_init)
   \<and> fst (sd_invoke no_faults True (AddLeafletMarker (-15.4) 28.3 ''Clinic'' ''red'')
        (snd (sd_invoke no_faults True (InitializeLeafletMap ''map'' (-15.4) 28.3 12) sd_init))) = Inr (JBool True)"
proof -
  have a: "fst (sd_try (\<lambda>n c. c = L_map ''missing'') True (InitializeLeafletMap ''missing'' (-15.4) 28.3 12) sd_init)
      = Inl (Thrown (L_map ''missing''))"
    by (simp add: initializeLeafletMap_try_def sd_init_def js_defs)
  have b: "fst (sd_invoke no_faults True (AddLeafletMarker (-15.4) 28.3 ''Clinic'' ''red'')
        (snd (sd_invoke no_faults True (InitializeLeafletMap ''map'' (-15.4) 28.3 12) sd_init))) \<noteq> Inr (JBool False)"
    by (simp add: sd_invoke_def initializeLeafletMap_try_def addLeafletMarker_try_def sd_init_def
        no_faults_def js_defs)
  have w1: "fst (sd_invoke no_faults True (AddLeafletMarker (-15.4) 28.3 ''Clinic'' ''red'') sd_init) = Inr (JBool False)"
    using sd_invoke_boolean [of no_faults True "AddLeafletMarker (-15.4) 28.3 ''Clinic'' ''red''" sd_init]
    by (simp add: sd_init_def)
  have w2: "fst (sd_invoke (\<lambda>n c. c = L_map ''missing'') True (InitializeLeafletMap ''missing'' (-15.4) 28.3 12) sd_init)
       = Inr (JBool False)"
    using a sd_invoke_boolean [of "\<lambda>n c. c = L_map ''missing''" True
      "InitializeLeafletMap ''missing'' (-15.4) 28.3 12" sd_init "Thrown (L_map ''missing'')"]
    by simp
  have w3: "sd_invoke no_faults True ClearLeafletMarkers sd_init = (Inr (JBool True), sd_init)"
    using sd_invoke_boolean [of no_faults True ClearLeafletMarkers sd_init] sd_reachable.start
    by (simp add: sd_init_def)
  obtain v where "fst (sd_invoke no_faults True (AddLeafletMarker (-15.4) 28.3 ''Clinic'' ''red'')
        (snd (sd_invoke no_faults True (InitializeLeafletMap ''map'' (-15.4) 28.3 12) sd_init))) = Inr (JBool v)"
    using sd_invoke_boolean [of no_faults True "AddLeafletMarker (-15.4) 28.3 ''Clinic'' ''red''"
      "snd (sd_invoke no_faults True (InitializeLeafletMap ''map'' (-15.4) 28.3 12) sd_init)"]
    by blast
  with b have w4: "fst (sd_invoke no_faults True (AddLeafletMarker (-15.4) 28.3 ''Clinic'' ''red'')
        (snd (sd_invoke no_faults True (InitializeLeafletMap ''map'' (-15.4) 28.3 12) sd_init))) = Inr (JBool True)"
    by (cases v) simp_all
  from w1 w2 w3 w4 show ?thesis by blast
qed

text \<open>
  On a fresh module the handle is \<^verbatim>\<open>null\<close>, and the three functions return
  \<^verbatim>\<open>true\<close>, not \<^verbatim>\<open>false\<close>.
\<close>

theorem destroyLeafletMap_uninitialised_counterexample:
  "sd_spatialMap sd_init = None
   \<and> sd_invoke no_faults True DestroyLeafletMap sd_init = (Inr (JBool True), sd_init)
   \<and> sd_invoke no_faults True ClearLeafletMarkers sd_init = (Inr (JBool True), sd_init)
   \<and> sd_invoke no_faults True ClearLeafletPolygons sd_init = (Inr (JBool True), sd_init)"
  by (simp add: sd_invoke_def destroyLeafletMap_try_def clearLeafletMarkers_try_def
      clearLeafletPolygons_try_def removeLayer_each_def sd_init_def js_defs)

end
